theory Spec2Isabelle
  imports Complex_Main "HOL-Library.Sublist" "HOL-Library.AList"
begin

section \<open>Strings\<close>

text \<open>
  A string is a list of characters, one \<open>char\<close> per code point; the model covers the code
  points 0 to 255 (Latin-1), where Python's and JavaScript's case mapping and white space
  are as written below.
\<close>

definition code :: "char \<Rightarrow> nat" where
  "code c = of_char c"

text \<open>
  \<open>str.lower()\<close> and \<open>toLowerCase()\<close> on one character: the upper-case letters are A to Z and
  the Latin-1 letters 0xC0 to 0xDE without the multiplication sign 0xD7.
\<close>

definition to_lower_char :: "char \<Rightarrow> char" where
  "to_lower_char c =
     (let n = code c
      in if (65 \<le> n \<and> n \<le> 90) \<or> (192 \<le> n \<and> n \<le> 222 \<and> n \<noteq> 215)
         then char_of (n + 32) else c)"

definition lower :: "string \<Rightarrow> string" where
  "lower s = map to_lower_char s"

text \<open>\<open>hay.includes(needle)\<close> in JavaScript, \<open>needle in hay\<close> in Python.\<close>

fun contains :: "string \<Rightarrow> string \<Rightarrow> bool" where
  "contains [] needle = (needle = [])"
| "contains (c # cs) needle = (prefix needle (c # cs) \<or> contains cs needle)"

text \<open>Removing the characters of a class from both ends.\<close>

definition strip_by :: "(char \<Rightarrow> bool) \<Rightarrow> string \<Rightarrow> string" where
  "strip_by p s = rev (dropWhile p (rev (dropWhile p s)))"

section \<open>The Python pipeline (version 9; the main loop is the same in version 7)\<close>

subsection \<open>Python values and string methods\<close>

text \<open>
  A cell of the data frame or an argument of unknown type: \<open>None\<close>, a boolean, a number or a
  string. Numbers are abstract; \<open>str\<close> of a number is a parameter where it is needed.
\<close>

datatype 'f pyval = PNone | PBool bool | PNum 'f | PStr string

fun py_str :: "('f \<Rightarrow> string) \<Rightarrow> 'f pyval \<Rightarrow> string" where
  "py_str num_repr PNone = ''None''"
| "py_str num_repr (PBool b) = (if b then ''True'' else ''False'')"
| "py_str num_repr (PNum x) = num_repr x"
| "py_str num_repr (PStr s) = s"

text \<open>The characters \<open>str.isspace\<close> accepts, which are also those of \<open>\s\<close> in a pattern.\<close>

definition py_space :: "char \<Rightarrow> bool" where
  "py_space c = (code c \<in> {9, 10, 11, 12, 13, 28, 29, 30, 31, 32, 133, 160})"

text \<open>\<open>s.strip()\<close> and \<open>s.strip(chars)\<close>\<close>

definition strip :: "string \<Rightarrow> string" where
  "strip s = strip_by py_space s"

definition strip_chars :: "string \<Rightarrow> string \<Rightarrow> string" where
  "strip_chars chars s = strip_by (\<lambda>c. c \<in> set chars) s"

text \<open>
  \<open>s.replace(old, new)\<close> for a non-empty \<open>old\<close> (the script passes \<open>" NS"\<close> and two spaces):
  occurrences are replaced from the left, without overlap.
\<close>

function replace :: "string \<Rightarrow> string \<Rightarrow> string \<Rightarrow> string" where
  "replace old new [] = []"
| "replace old new (c # cs) =
     (if old \<noteq> [] \<and> prefix old (c # cs)
      then new @ replace old new (drop (length old) (c # cs))
      else c # replace old new cs)"
  by pat_completeness auto
termination
  by (relation "measure (\<lambda>(old, new, s). length s)") auto

subsection \<open>Regular expressions\<close>

text \<open>
  The fragment of Python's \<open>re\<close> the script uses: single characters, character sets, \<open>\s\<close>,
  \<open>\d\<close>, the dot, \<open>\b\<close>, sequence, alternation, and the greedy \<open>?\<close>, \<open>*\<close> and \<open>+\<close>.
\<close>

datatype atom = Chr char | OneOf string | Space | Digit | AnyChar

datatype regex = Eps | Atom atom | WordB | Seq regex regex | Alt regex regex | Opt regex | Star regex

definition Plus :: "regex \<Rightarrow> regex" where
  "Plus r = Seq r (Star r)"

fun Seqs :: "regex list \<Rightarrow> regex" where
  "Seqs [] = Eps"
| "Seqs (r # rs) = Seq r (Seqs rs)"

definition Lit :: "string \<Rightarrow> regex" where
  "Lit s = Seqs (map (\<lambda>c. Atom (Chr c)) s)"

definition digit_char :: "char \<Rightarrow> bool" where
  "digit_char c = (48 \<le> code c \<and> code c \<le> 57)"

text \<open>\<open>\w\<close>: letters, digits and other numeric characters, and the underscore.\<close>

definition word_char :: "char \<Rightarrow> bool" where
  "word_char c =
     (let n = code c
      in (48 \<le> n \<and> n \<le> 57) \<or> (65 \<le> n \<and> n \<le> 90) \<or> n = 95 \<or> (97 \<le> n \<and> n \<le> 122)
         \<or> n \<in> {170, 178, 179, 181, 185, 186, 188, 189, 190}
         \<or> (192 \<le> n \<and> n \<noteq> 215 \<and> n \<noteq> 247))"

text \<open>The flag \<open>ic\<close> is \<open>re.I\<close>: both characters are compared in lower case.\<close>

fun atom_ok :: "bool \<Rightarrow> atom \<Rightarrow> char \<Rightarrow> bool" where
  "atom_ok ic (Chr d) c = (if ic then to_lower_char c = to_lower_char d else c = d)"
| "atom_ok ic (OneOf ds) c =
     (if ic then to_lower_char c \<in> to_lower_char ` set ds else c \<in> set ds)"
| "atom_ok ic Space c = py_space c"
| "atom_ok ic Digit c = digit_char c"
| "atom_ok ic AnyChar c = (c \<noteq> CHR 0x0A)"

text \<open>
  A position in the subject string: the characters before it, nearest first, and the
  characters from it on. \<open>\b\<close> holds where exactly one of the two neighbours is a word
  character.
\<close>

type_synonym cfg = "string \<times> string"

definition at_boundary :: "cfg \<Rightarrow> bool" where
  "at_boundary c =
     ((case fst c of [] \<Rightarrow> False | a # _ \<Rightarrow> word_char a) \<noteq>
      (case snd c of [] \<Rightarrow> False | b # _ \<Rightarrow> word_char b))"

text \<open>
  \<open>ms ic r c\<close> lists the positions where a match of \<open>r\<close> started at \<open>c\<close> can end, in the order
  in which the backtracking matcher tries them: the first alternative before the second, one
  more repetition before stopping. The match \<open>re\<close> reports is the head of the list.
  An iteration of \<open>*\<close> has to consume a character; every pattern below repeats single
  characters only.
\<close>

fun ms :: "bool \<Rightarrow> regex \<Rightarrow> cfg \<Rightarrow> cfg list" where
  "ms ic Eps c = [c]"
| "ms ic (Atom a) c =
     (case snd c of [] \<Rightarrow> [] | x # s' \<Rightarrow> if atom_ok ic a x then [(x # fst c, s')] else [])"
| "ms ic WordB c = (if at_boundary c then [c] else [])"
| "ms ic (Seq r1 r2) c = concat (map (ms ic r2) (ms ic r1 c))"
| "ms ic (Alt r1 r2) c = ms ic r1 c @ ms ic r2 c"
| "ms ic (Opt r) c = ms ic r c @ [c]"
| "ms ic (Star r) c =
     concat (map (ms ic (Star r))
               (filter (\<lambda>c'. length (snd c') < length (snd c)) (ms ic r c))) @ [c]"

text \<open>
  \<open>pattern.sub(repl, s)\<close> from position \<open>c\<close> on: the leftmost match is replaced and the scan
  goes on behind it; where nothing matches, one character is copied. (An empty match would
  put \<open>repl\<close> in front of the copied character; no pattern below matches the empty string.)
\<close>

function re_sub_from :: "bool \<Rightarrow> regex \<Rightarrow> string \<Rightarrow> cfg \<Rightarrow> string" where
  "re_sub_from ic r repl c =
     (case ms ic r c of
        [] \<Rightarrow> (case snd c of [] \<Rightarrow> [] | x # t \<Rightarrow> x # re_sub_from ic r repl (x # fst c, t))
      | c' # _ \<Rightarrow>
          if length (snd c') < length (snd c) then repl @ re_sub_from ic r repl c'
          else (case snd c of [] \<Rightarrow> repl
                | x # t \<Rightarrow> repl @ x # re_sub_from ic r repl (x # fst c, t)))"
  by pat_completeness auto
termination
  by (relation "measure (\<lambda>(ic, r, repl, c). length (snd c))") auto

definition re_sub :: "bool \<Rightarrow> regex \<Rightarrow> string \<Rightarrow> string \<Rightarrow> string" where
  "re_sub ic r repl s = re_sub_from ic r repl ([], s)"

text \<open>\<open>re.search(pattern, s)\<close> finds a match: one starts at this position or at a later one.\<close>

fun re_search_from :: "bool \<Rightarrow> regex \<Rightarrow> string \<Rightarrow> string \<Rightarrow> bool" where
  "re_search_from ic r p [] = (ms ic r (p, []) \<noteq> [])"
| "re_search_from ic r p (x # t) = (ms ic r (p, x # t) \<noteq> [] \<or> re_search_from ic r (x # p) t)"

definition re_search :: "bool \<Rightarrow> regex \<Rightarrow> string \<Rightarrow> bool" where
  "re_search ic r s = re_search_from ic r [] s"

subsection \<open>Address cleanup\<close>

text \<open>\<open>\b(P\.?\s*O\.?\s*Box|PO\s*Box|Box\s+\d+)\b\<close> with \<open>re.I\<close>\<close>

definition POBOX_PAT :: regex where
  "POBOX_PAT =
     Seqs [WordB,
           Alt (Seqs [Atom (Chr CHR ''P''), Opt (Atom (Chr CHR ''.'')), Star (Atom Space),
                      Atom (Chr CHR ''O''), Opt (Atom (Chr CHR ''.'')), Star (Atom Space),
                      Lit ''Box''])
          (Alt (Seqs [Lit ''PO'', Star (Atom Space), Lit ''Box''])
               (Seqs [Lit ''Box'', Plus (Atom Space), Plus (Atom Digit)])),
           WordB]"

text \<open>\<open>\bRR\s*\d+\b\<close> with \<open>re.I\<close>\<close>

definition RR_PAT :: regex where
  "RR_PAT = Seqs [WordB, Lit ''RR'', Star (Atom Space), Plus (Atom Digit), WordB]"

text \<open>\<open>\bStn\.?\b\<close> with \<open>re.I\<close>\<close>

definition STN_PAT :: regex where
  "STN_PAT = Seqs [WordB, Lit ''Stn'', Opt (Atom (Chr CHR ''.'')), WordB]"

text \<open>\<open>\b[ABCEGHJ-NPRSTVXY]\d[ABCEGHJ-NPRSTV-Z]\s?\d[ABCEGHJ-NPRSTV-Z]\d\b\<close> with \<open>re.I\<close>\<close>

definition POSTAL_PAT :: regex where
  "POSTAL_PAT =
     Seqs [WordB, Atom (OneOf ''ABCEGHJKLMNPRSTVXY''), Atom Digit,
           Atom (OneOf ''ABCEGHJKLMNPRSTVWXYZ''), Opt (Atom Space), Atom Digit,
           Atom (OneOf ''ABCEGHJKLMNPRSTVWXYZ''), Atom Digit, WordB]"

text \<open>
  The first four statements of \<open>normalize_address\<close> on a string: trim, drop box and route
  tokens, expand \<open>Stn\<close>, collapse white space and strip separators.
\<close>

definition cleanup :: "string \<Rightarrow> string" where
  "cleanup addr =
     (let s = strip addr;
          s = re_sub True POBOX_PAT [] s;
          s = re_sub True RR_PAT [] s;
          s = re_sub True STN_PAT ''Station'' s;
          s = strip (strip_chars '', '' (re_sub False (Plus (Atom Space)) '' '' s))
      in s)"

text \<open>The rest of the function: the region and country tokens.\<close>

definition add_region :: "string \<Rightarrow> string" where
  "add_region s0 =
     (let s = (if \<not> contains s0 ''Nova Scotia'' \<and> re_search False (Seqs [WordB, Lit ''NS'', WordB]) s0
               then replace '' NS'' '', Nova Scotia'' s0 else s0);
          s = (if \<not> contains s ''Nova Scotia'' then s @ '', Nova Scotia'' else s);
          s = (if \<not> contains s ''Canada'' then s @ '', Canada'' else s)
      in s)"

definition normalize_address :: "'f pyval \<Rightarrow> string" where
  "normalize_address addr =
     (case addr of PStr a \<Rightarrow> add_region (cleanup a) | _ \<Rightarrow> [])"

subsection \<open>Geocoding client\<close>

text \<open>
  The remote service behind \<open>geocode_fn\<close>: the reply to the \<open>n\<close>-th call made so far, for a
  query, is a location (latitude, longitude), \<open>None\<close>, or an exception. \<open>OtherException\<close>
  stands for every exception class derived from \<open>Exception\<close> other than the two named ones.
  The log records every query sent and every \<open>time.sleep\<close>, in order.
\<close>

datatype exn = GeocoderTimedOut | GeocoderUnavailable | OtherException

datatype 'f reply = Raises exn | Returns "('f \<times> 'f) option"

type_synonym 'f service = "nat \<Rightarrow> string \<Rightarrow> 'f reply"

record geo_log =
  calls :: "string list"
  sleeps :: "real list"

text \<open>\<open>,\s*Nova Scotia.*\<close>\<close>

definition SHORT_PAT :: regex where
  "SHORT_PAT = Seqs [Atom (Chr CHR '',''), Star (Atom Space), Lit ''Nova Scotia'', Star (Atom AnyChar)]"

definition variants :: "string \<Rightarrow> string list" where
  "variants address =
     (let vs = [address];
          no_postal = strip (strip_chars '', '' (replace ''  '' '' '' (re_sub True POSTAL_PAT [] address)));
          vs = (if no_postal \<noteq> address then vs @ [no_postal] else vs);
          short = re_sub False SHORT_PAT '', Nova Scotia, Canada'' address;
          vs = (if short \<noteq> address \<and> short \<notin> set vs then vs @ [short] else vs)
      in vs)"

text \<open>
  The inner loop \<open>for i in range(retries)\<close> over the remaining values of \<open>i\<close>. \<open>Some\<close> is the
  \<open>return\<close> out of both loops; \<open>None\<close> is the loop running out. Both \<open>except\<close> clauses have the
  same body (the assignment to \<open>last_err\<close>, which is never read, is left out).
\<close>

fun try_variant ::
  "'f service \<Rightarrow> real \<Rightarrow> string \<Rightarrow> nat list \<Rightarrow> geo_log \<Rightarrow> ('f \<times> 'f) option \<times> geo_log" where
  "try_variant fn backoff v [] st = (None, st)"
| "try_variant fn backoff v (i # is) st =
     (let st1 = st\<lparr>calls := calls st @ [v]\<rparr>
      in case fn (length (calls st)) v of
           Returns (Some loc) \<Rightarrow> (Some loc, st1)
         | Returns None \<Rightarrow> try_variant fn backoff v is st1
         | Raises GeocoderTimedOut \<Rightarrow>
             try_variant fn backoff v is (st1\<lparr>sleeps := sleeps st1 @ [backoff * real (i + 1)]\<rparr>)
         | Raises GeocoderUnavailable \<Rightarrow>
             try_variant fn backoff v is (st1\<lparr>sleeps := sleeps st1 @ [backoff * real (i + 1)]\<rparr>)
         | Raises OtherException \<Rightarrow>
             try_variant fn backoff v is (st1\<lparr>sleeps := sleeps st1 @ [backoff * real (i + 1)]\<rparr>))"

text \<open>The outer loop \<open>for v in variants\<close>.\<close>

fun try_variants ::
  "'f service \<Rightarrow> real \<Rightarrow> nat \<Rightarrow> string list \<Rightarrow> geo_log \<Rightarrow> ('f \<times> 'f) option \<times> geo_log" where
  "try_variants fn backoff retries [] st = (None, st)"
| "try_variants fn backoff retries (v # vs) st =
     (case try_variant fn backoff v [0..<retries] st of
        (Some loc, st') \<Rightarrow> (Some loc, st')
      | (None, st') \<Rightarrow> try_variants fn backoff retries vs st')"

definition geocode_address ::
  "'f service \<Rightarrow> string \<Rightarrow> nat \<Rightarrow> real \<Rightarrow> geo_log \<Rightarrow> ('f option \<times> 'f option) \<times> geo_log" where
  "geocode_address fn address retries backoff st =
     (case try_variants fn backoff retries (variants address) st of
        (Some (la, lo), st') \<Rightarrow> ((Some la, Some lo), st')
      | (None, st') \<Rightarrow> ((None, None), st'))"

subsection \<open>The retry rule as the specification words it\<close>

text \<open>
  Written from the specification's sentence, for comparison with \<open>geocode_address\<close>: a
  transient failure (timeout, service unavailable) sleeps and retries the same variant, any
  other failure stops retrying that variant.
\<close>

fun spec_try_variant ::
  "'f service \<Rightarrow> real \<Rightarrow> string \<Rightarrow> nat list \<Rightarrow> geo_log \<Rightarrow> ('f \<times> 'f) option \<times> geo_log" where
  "spec_try_variant fn backoff v [] st = (None, st)"
| "spec_try_variant fn backoff v (i # is) st =
     (let st1 = st\<lparr>calls := calls st @ [v]\<rparr>
      in case fn (length (calls st)) v of
           Returns (Some loc) \<Rightarrow> (Some loc, st1)
         | Returns None \<Rightarrow> spec_try_variant fn backoff v is st1
         | Raises GeocoderTimedOut \<Rightarrow>
             spec_try_variant fn backoff v is (st1\<lparr>sleeps := sleeps st1 @ [backoff * real (i + 1)]\<rparr>)
         | Raises GeocoderUnavailable \<Rightarrow>
             spec_try_variant fn backoff v is (st1\<lparr>sleeps := sleeps st1 @ [backoff * real (i + 1)]\<rparr>)
         | Raises OtherException \<Rightarrow> (None, st1))"

fun spec_try_variants ::
  "'f service \<Rightarrow> real \<Rightarrow> nat \<Rightarrow> string list \<Rightarrow> geo_log \<Rightarrow> ('f \<times> 'f) option \<times> geo_log" where
  "spec_try_variants fn backoff retries [] st = (None, st)"
| "spec_try_variants fn backoff retries (v # vs) st =
     (case spec_try_variant fn backoff v [0..<retries] st of
        (Some loc, st') \<Rightarrow> (Some loc, st')
      | (None, st') \<Rightarrow> spec_try_variants fn backoff retries vs st')"

definition spec_geocode_address ::
  "'f service \<Rightarrow> string \<Rightarrow> nat \<Rightarrow> real \<Rightarrow> geo_log \<Rightarrow> ('f option \<times> 'f option) \<times> geo_log" where
  "spec_geocode_address fn address retries backoff st =
     (case spec_try_variants fn backoff retries (variants address) st of
        (Some (la, lo), st') \<Rightarrow> ((Some la, Some lo), st')
      | (None, st') \<Rightarrow> ((None, None), st'))"

subsection \<open>Geocode cache\<close>

text \<open>
  A Python float is a number or \<open>nan\<close>. A coordinate pair is a tuple of two values, each a
  float or \<open>None\<close>. The cache is a \<open>dict\<close> from addresses to pairs: an association list in
  insertion order whose keys are distinct; \<open>cache[k] = v\<close> is \<open>AList.update\<close>, which
  replaces the value of a key in place and puts a new key at the end.
\<close>

datatype 'f pyfloat = Float 'f | NaN

type_synonym 'f coords = "'f pyfloat option \<times> 'f pyfloat option"

type_synonym 'f cache_dict = "(string \<times> 'f coords) list"

text \<open>
  The cache file is modelled by the table \<open>to_csv\<close> writes: one row per address with the
  address text and a latitude and a longitude cell, a cell being a number or empty; \<open>to_csv\<close>
  leaves the cell of \<open>None\<close> and of \<open>nan\<close> empty. (How pandas prints and parses the digits of
  a number is outside the model.) Besides a table, the file may not exist, or exist with no
  bytes in it.
\<close>

type_synonym 'f table = "(string \<times> 'f option \<times> 'f option) list"

datatype 'f cache_file = NoFile | ZeroBytes | Table "'f table"

fun write_cell :: "'f pyfloat option \<Rightarrow> 'f option" where
  "write_cell (Some (Float x)) = Some x"
| "write_cell (Some NaN) = None"
| "write_cell None = None"

text \<open>\<open>read_csv\<close> reads an empty cell of a coordinate column as \<open>nan\<close>.\<close>

fun read_cell :: "'f option \<Rightarrow> 'f pyfloat" where
  "read_cell (Some x) = Float x"
| "read_cell None = NaN"

fun notna :: "'f pyfloat \<Rightarrow> bool" where
  "notna (Float x) = True"
| "notna NaN = False"

text \<open>
  The texts \<open>read_csv\<close> takes for a missing value by default: an address that is one of them
  comes back as \<open>nan\<close>, not as a string.
\<close>

definition na_values :: "string list" where
  "na_values =
     [[], ''#N/A'', ''#N/A N/A'', ''#NA'', ''-1.#IND'', ''-1.#QNAN'', ''-NaN'', ''-nan'',
      ''1.#IND'', ''1.#QNAN'', ''<NA>'', ''N/A'', ''NA'', ''NULL'', ''NaN'', ''None'', ''n/a'',
      ''nan'', ''null'']"

text \<open>
  What \<open>load_cache\<close> does: it returns a \<open>dict\<close> whose keys are the address strings of the file;
  or \<open>read_csv\<close> raises \<open>EmptyDataError\<close> (a file without bytes); or it returns a \<open>dict\<close> with
  keys that are not the strings written (\<open>nan\<close>, numbers, booleans, pieces of an address),
  which is not described further.

  \<open>reads_as_text\<close>, a parameter, stands for the rest of what pandas does to the address
  column: it holds of the addresses written when \<open>read_csv\<close> gives them back as the same
  strings, row for row (it does not, for one, when it takes the whole column for numbers or
  for booleans).
\<close>

datatype 'a loaded = Dict 'a | EmptyDataError | OtherKeys

definition load_cache :: "(string list \<Rightarrow> bool) \<Rightarrow> 'f cache_file \<Rightarrow> 'f cache_dict loaded" where
  "load_cache reads_as_text cache_file =
     (case cache_file of
        Table df \<Rightarrow>
          if (\<exists>address \<in> set (map fst df). address \<in> set na_values)
             \<or> (df \<noteq> [] \<and> \<not> reads_as_text (map fst df))
          then OtherKeys
          else Dict
            (foldl (\<lambda>out (address, la, lo).
                     let lat = read_cell la; lon = read_cell lo
                     in AList.update address
                          (if notna lat then Some lat else None, if notna lon then Some lon else None)
                          out)
                  [] df)
      | ZeroBytes \<Rightarrow> EmptyDataError
      | NoFile \<Rightarrow> Dict [])"

text \<open>\<open>save_cache\<close> returns the cache file as it is afterwards.\<close>

definition save_cache :: "'f cache_file \<Rightarrow> 'f cache_dict \<Rightarrow> 'f cache_file" where
  "save_cache cache_file cache =
     (if cache = [] then cache_file
      else Table (map (\<lambda>(a, v). (a, write_cell (fst v), write_cell (snd v))) cache))"

subsection \<open>Dataset builder: the row loop of \<open>main\<close>\<close>

text \<open>
  A row of the data frame: the normalized address and the cells the loop reads. The type of
  a cell is left open; \<open>to_float\<close>, a parameter of the loop, is Python's \<open>float(cell)\<close>, with
  \<open>None\<close> where it raises.
\<close>

record 'c row =
  row_addr :: string
  row_lat :: 'c
  row_lon :: 'c
  row_school :: 'c
  row_address :: 'c

record args =
  no_cache :: bool
  regeocode_failed :: bool

record ('c, 'f) build_state =
  cache :: "'f cache_dict"
  cache_file :: "'f cache_file"
  geo :: geo_log
  lats :: "'f pyfloat option list"
  lons :: "'f pyfloat option list"
  failed :: "('c \<times> 'c \<times> string) list"

text \<open>The \<open>try\<close> block: both conversions succeed, or both variables are \<open>None\<close>.\<close>

definition prev_latlon :: "('c \<Rightarrow> 'f pyfloat option) \<Rightarrow> bool \<Rightarrow> 'c row \<Rightarrow> 'f coords" where
  "prev_latlon to_float has_latlon row =
     (if has_latlon then
        (case to_float (row_lat row) of
           None \<Rightarrow> (None, None)
         | Some a \<Rightarrow> (case to_float (row_lon row) of None \<Rightarrow> (None, None) | Some b \<Rightarrow> (Some a, Some b)))
      else (None, None))"

text \<open>
  The branches of the loop body: the coordinates of the row, the cache and the log of
  service calls afterwards. The inner \<open>case\<close> looks the address up when caching is on
  (\<open>not args.no_cache and addr in cache\<close>): an entry with two coordinates is the \<open>elif\<close>
  branch; an entry with a \<open>None\<close> in it is reused unless \<open>--regeocode-failed\<close> is given; in
  every other case \<open>geocode_address\<close> is called, with its default \<open>retries = 3\<close> and
  \<open>backoff = 2.0\<close>.
\<close>

definition resolve ::
  "'f pyfloat service \<Rightarrow> args \<Rightarrow> string \<Rightarrow> 'f coords \<Rightarrow> 'f cache_dict \<Rightarrow> geo_log
     \<Rightarrow> 'f coords \<times> 'f cache_dict \<times> geo_log" where
  "resolve geocode_fn a addr prev c g =
     (if fst prev \<noteq> None \<and> snd prev \<noteq> None then
        (prev, if \<not> no_cache a then AList.update addr prev c else c, g)
      else
        (case (if \<not> no_cache a then map_of c addr else None) of
           Some (Some la, Some lo) \<Rightarrow> ((Some la, Some lo), c, g)
         | hit \<Rightarrow>
             (case (if \<not> regeocode_failed a then hit else None) of
                Some v \<Rightarrow> (v, c, g)
              | None \<Rightarrow>
                  let (v, g') = geocode_address geocode_fn addr 3 2 g
                  in (v, if \<not> no_cache a then AList.update addr v c else c, g'))))"

definition process_row ::
  "'f pyfloat service \<Rightarrow> ('c \<Rightarrow> 'f pyfloat option) \<Rightarrow> args \<Rightarrow> bool \<Rightarrow>
     ('c, 'f) build_state \<Rightarrow> 'c row \<Rightarrow> ('c, 'f) build_state" where
  "process_row geocode_fn to_float a has_latlon st row =
     (let addr = row_addr row;
          prev = prev_latlon to_float has_latlon row;
          (v, c, g) = resolve geocode_fn a addr prev (cache st) (geo st);
          st1 = st\<lparr>cache := c, geo := g, lats := lats st @ [fst v], lons := lons st @ [snd v]\<rparr>;
          st2 = (if fst v = None \<or> snd v = None
                 then st1\<lparr>failed := failed st1 @ [(row_school row, row_address row, addr)]\<rparr>
                 else st1)
      in if \<not> no_cache a \<and> length (cache st2) mod 25 = 0
         then st2\<lparr>cache_file := save_cache (cache_file st2) (cache st2)\<rparr>
         else st2)"

text \<open>The loop over the rows and the save that follows it.\<close>

definition build ::
  "'f pyfloat service \<Rightarrow> ('c \<Rightarrow> 'f pyfloat option) \<Rightarrow> args \<Rightarrow> bool \<Rightarrow>
     ('c, 'f) build_state \<Rightarrow> 'c row list \<Rightarrow> ('c, 'f) build_state" where
  "build geocode_fn to_float a has_latlon st rows =
     (let st1 = foldl (process_row geocode_fn to_float a has_latlon) st rows
      in if \<not> no_cache a then st1\<lparr>cache_file := save_cache (cache_file st1) (cache st1)\<rparr>
         else st1)"

subsection \<open>Status\<close>

definition normalize_status_value :: "('f \<Rightarrow> string) \<Rightarrow> 'f pyval \<Rightarrow> string" where
  "normalize_status_value num_repr val =
     (let v = lower (strip (py_str num_repr val))
      in if v = ''current'' \<or> v = ''active'' \<or> v = ''both'' then ''current''
         else if v = ''recent'' then ''recent''
         else ''none'')"

section \<open>The client-side marker store (the script embedded by \<open>build_map\<close>, version 9)\<close>

subsection \<open>JavaScript values held in a location record\<close>

text \<open>
  The records of \<open>DATA\<close> come from \<open>json.dumps\<close> of the data frame and from the add form, so a
  field holds a JSON scalar. \<open>null\<close> and \<open>undefined\<close> behave alike in every expression of the
  script (\<open>x || ''\<close>, \<open>x == null\<close>) and are one constructor. Numbers are kept abstract: the three
  things the script asks of a number (its truthiness, \<open>String(n)\<close>, \<open>Number.isFinite(n)\<close>) are
  the fields of \<open>numops\<close>, a parameter of the functions below.
\<close>

datatype 'n jsval = JNull | JBool bool | JNum 'n | JStr string

record 'n numops =
  num_truthy :: "'n \<Rightarrow> bool"
  num_string :: "'n \<Rightarrow> string"
  num_finite :: "'n \<Rightarrow> bool"

fun truthy :: "'n numops \<Rightarrow> 'n jsval \<Rightarrow> bool" where
  "truthy ops JNull = False"
| "truthy ops (JBool b) = b"
| "truthy ops (JNum n) = num_truthy ops n"
| "truthy ops (JStr s) = (s \<noteq> [])"

text \<open>\<open>String(v)\<close> for a value that is not \<open>null\<close>/\<open>undefined\<close>; the script never converts those.\<close>

fun String :: "'n numops \<Rightarrow> 'n jsval \<Rightarrow> string" where
  "String ops JNull = ''null''"
| "String ops (JBool b) = (if b then ''true'' else ''false'')"
| "String ops (JNum n) = num_string ops n"
| "String ops (JStr s) = s"

text \<open>\<open>v || ''\<close>\<close>

definition or_empty :: "'n numops \<Rightarrow> 'n jsval \<Rightarrow> 'n jsval" where
  "or_empty ops v = (if truthy ops v then v else JStr [])"

fun isFinite :: "'n numops \<Rightarrow> 'n jsval \<Rightarrow> bool" where
  "isFinite ops (JNum n) = num_finite ops n"
| "isFinite ops _ = False"

record 'n location =
  School :: "'n jsval"
  Address :: "'n jsval"
  Group :: "'n jsval"
  lat :: "'n jsval"
  lon :: "'n jsval"
  Status :: "'n jsval"

subsection \<open>Status and visibility\<close>

text \<open>White space and line terminators removed by \<open>String.prototype.trim\<close>.\<close>

definition js_space :: "char \<Rightarrow> bool" where
  "js_space c = (code c \<in> {9, 10, 11, 12, 13, 32, 160})"

definition trim :: "string \<Rightarrow> string" where
  "trim s = strip_by js_space s"

definition normalizeStatus :: "'n numops \<Rightarrow> 'n jsval \<Rightarrow> string" where
  "normalizeStatus ops s =
     (let v = lower (trim (String ops (or_empty ops s)))
      in if v = ''recent'' then ''recent''
         else if v = ''current'' \<or> v = ''active'' \<or> v = ''both'' then ''current''
         else ''none'')"

text \<open>
  The filter controls of the page: the values of the checked status boxes, the values of the
  selected options of the group list, and the text of the search box.
\<close>

record filter_state =
  statusChk :: "string list"
  groupSel :: "string list"
  searchBox :: string

text \<open>
  \<open>Set.prototype.has\<close> compares without conversion: a value that is not a string is in no set
  of strings.
\<close>

definition has :: "string list \<Rightarrow> 'n jsval \<Rightarrow> bool" where
  "has xs v = (case v of JStr s \<Rightarrow> s \<in> set xs | _ \<Rightarrow> False)"

definition visiblePredicate :: "'n numops \<Rightarrow> filter_state \<Rightarrow> 'n location \<Rightarrow> bool" where
  "visiblePredicate ops f rec =
     (let statuses = statusChk f;
          groups = groupSel f;
          q = lower (trim (searchBox f));
          show0 = (normalizeStatus ops (Status rec) \<in> set statuses);
          show1 = (if show0 \<and> groups \<noteq> [] then has groups (or_empty ops (Group rec)) else show0);
          show2 = (if show1 \<and> q \<noteq> []
                   then
                     let hay = lower (String ops (or_empty ops (School rec)) @ '' '' @
                                      String ops (or_empty ops (Address rec)))
                     in contains hay q
                   else show1)
      in show2)"

subsection \<open>Delete and undo\<close>

text \<open>
  An entry of \<open>UNDO_STACK\<close> is \<open>{type, rec, idx}\<close>; \<open>push\<close> and \<open>pop\<close> work at the end of the
  array, so the top of the stack is the last element of the list. \<open>markers\<close> holds the records
  that have a circle on the map; \<open>toast\<close> is the text of the last notice shown.
  The popup buttons pass the array index the marker was built with, a natural number.
\<close>

record 'n undo_entry =
  utype :: string
  urec :: "'n location"
  uidx :: nat

record 'n store =
  DATA :: "'n location list"
  UNDO_STACK :: "'n undo_entry list"
  markers :: "'n location list"
  toast :: "string option"

definition showToast :: "string \<Rightarrow> 'n store \<Rightarrow> 'n store" where
  "showToast msg st = st\<lparr>toast := Some msg\<rparr>"

text \<open>
  \<open>rebuildMarkers\<close> drops every marker and adds one per record with finite coordinates.
  The \<open>applyFilters\<close> call at its end only shows or hides those markers.
\<close>

definition rebuildMarkers :: "'n numops \<Rightarrow> 'n store \<Rightarrow> 'n store" where
  "rebuildMarkers ops st =
     st\<lparr>markers := filter (\<lambda>r. isFinite ops (lat r) \<and> isFinite ops (lon r)) (DATA st)\<rparr>"

text \<open>\<open>DATA.splice(idx, 1)\<close> and \<open>DATA.splice(pos, 0, rec)\<close> for \<open>idx\<close>, \<open>pos\<close> within the array.\<close>

definition splice_remove :: "nat \<Rightarrow> 'a list \<Rightarrow> 'a list" where
  "splice_remove idx xs = take idx xs @ drop (Suc idx) xs"

definition splice_insert :: "nat \<Rightarrow> 'a \<Rightarrow> 'a list \<Rightarrow> 'a list" where
  "splice_insert pos x xs = take pos xs @ x # drop pos xs"

text \<open>
  \<open>window._delete\<close>: \<open>DATA[idx]\<close> is \<open>undefined\<close> past the end of the array, and a record is an
  object, hence truthy. The entry pushed holds a copy \<open>{...rec}\<close> of the record.
\<close>

definition window_delete :: "'n numops \<Rightarrow> nat \<Rightarrow> 'n store \<Rightarrow> 'n store" where
  "window_delete ops idx st =
     (if \<not> idx < length (DATA st) then st
      else
        let rec = DATA st ! idx;
            st1 = st\<lparr>UNDO_STACK := UNDO_STACK st @ [\<lparr>utype = ''delete'', urec = rec, uidx = idx\<rparr>]\<rparr>;
            st2 = st1\<lparr>DATA := splice_remove idx (DATA st1)\<rparr>;
            st3 = rebuildMarkers ops st2
        in showToast ''Deleted. Click Undo Delete to restore.'' st3)"

definition undoDelete :: "'n numops \<Rightarrow> 'n store \<Rightarrow> 'n store" where
  "undoDelete ops st =
     (if UNDO_STACK st = [] then showToast ''Nothing to undo.'' st
      else
        let action = last (UNDO_STACK st);
            st1 = st\<lparr>UNDO_STACK := butlast (UNDO_STACK st)\<rparr>
        in if utype action = ''delete'' then
             let pos = min (uidx action) (length (DATA st1));
                 st2 = st1\<lparr>DATA := splice_insert pos (urec action) (DATA st1)\<rparr>;
                 st3 = rebuildMarkers ops st2
             in showToast ''Restored.'' st3
           else st1)"

subsection \<open>CSV export\<close>

definition headers :: "string list" where
  "headers = [''School'', ''Address'', ''Group'', ''lat'', ''lon'', ''Status'']"

text \<open>\<open>row[h]\<close> for the six header names.\<close>

definition row_get :: "'n location \<Rightarrow> string \<Rightarrow> 'n jsval" where
  "row_get row h =
     (if h = ''School'' then School row
      else if h = ''Address'' then Address row
      else if h = ''Group'' then Group row
      else if h = ''lat'' then lat row
      else if h = ''lon'' then lon row
      else if h = ''Status'' then Status row
      else JNull)"

text \<open>\<open>xs.join(sep)\<close>\<close>

fun join :: "string \<Rightarrow> string list \<Rightarrow> string" where
  "join sep [] = []"
| "join sep [x] = x"
| "join sep (x # y # ys) = x @ sep @ join sep (y # ys)"

text \<open>\<open>v.replace(/"/g, '""')\<close>\<close>

fun double_quotes :: "string \<Rightarrow> string" where
  "double_quotes [] = []"
| "double_quotes (c # cs) =
     (if c = CHR 0x22 then CHR 0x22 # CHR 0x22 # double_quotes cs else c # double_quotes cs)"

text \<open>\<open>/[",\n]/.test(v)\<close>\<close>

definition needs_quoting :: "string \<Rightarrow> bool" where
  "needs_quoting v = (\<exists>c \<in> set v. c = CHR 0x22 \<or> c = CHR '','' \<or> c = CHR 0x0A)"

definition csv_value :: "'n numops \<Rightarrow> 'n jsval \<Rightarrow> string" where
  "csv_value ops x =
     (let v = (if x = JNull then [] else double_quotes (String ops x))
      in if needs_quoting v then [CHR 0x22] @ v @ [CHR 0x22] else v)"

definition csv_line :: "'n numops \<Rightarrow> 'n location \<Rightarrow> string" where
  "csv_line ops row = join '','' (map (\<lambda>h. csv_value ops (row_get row h)) headers)"

text \<open>
  \<open>downloadCSV\<close>: the text of the file handed to the browser, or \<open>None\<close> when the function
  returns before building one.
\<close>

definition downloadCSV :: "'n numops \<Rightarrow> 'n location list \<Rightarrow> string option" where
  "downloadCSV ops data =
     (if data = [] then None
      else Some (join [CHR 0x0A] (join '','' headers # map (csv_line ops) data)))"

subsection \<open>Reading a CSV text back\<close>

text \<open>
  The other half of the export round trip, which the script does not contain: a reader of
  comma-separated text as RFC 4180 describes it and as Python's \<open>csv.reader\<close> reads a file. A
  record ends at a line feed, at a carriage return, or at the two in a row; fields are
  separated by commas; a field that opens with a double quote runs to its closing quote, with
  commas and line breaks in it, and two double quotes inside it stand for one. An empty line
  is a record without fields. The reader keeps the field and the record it is building.
\<close>

datatype mode = RecordStart | AfterCR | FieldStart | Unquoted | Quoted | QuoteSeen

fun parse_csv_from :: "mode \<Rightarrow> string \<Rightarrow> string list \<Rightarrow> string \<Rightarrow> string list list" where
  "parse_csv_from m field row [] =
     (if m = RecordStart \<or> m = AfterCR then [] else [row @ [field]])"
| "parse_csv_from Quoted field row (c # cs) =
     (if c = CHR 0x22 then parse_csv_from QuoteSeen field row cs
      else parse_csv_from Quoted (field @ [c]) row cs)"
| "parse_csv_from m field row (c # cs) =
     (if m = AfterCR \<and> c = CHR 0x0A then parse_csv_from RecordStart [] [] cs
      else if c = CHR 0x0A \<or> c = CHR 0x0D then
        (if m = RecordStart \<or> m = AfterCR then [] else row @ [field])
          # parse_csv_from (if c = CHR 0x0D then AfterCR else RecordStart) [] [] cs
      else if c = CHR '','' then parse_csv_from FieldStart [] (row @ [field]) cs
      else if c = CHR 0x22 \<and> m \<noteq> Unquoted
      then parse_csv_from Quoted (if m = QuoteSeen then field @ [c] else field) row cs
      else parse_csv_from Unquoted (field @ [c]) row cs)"

definition parse_csv :: "string \<Rightarrow> string list list" where
  "parse_csv s = parse_csv_from RecordStart [] [] s"

text \<open>
  The text of a cell before quoting, the quoting \<open>downloadCSV\<close> applies to it, and the six
  cell texts of a record, for the statement of the round trip.
\<close>

definition cell_text :: "'n numops \<Rightarrow> 'n jsval \<Rightarrow> string" where
  "cell_text ops x = (if x = JNull then [] else String ops x)"

definition quote_field :: "string \<Rightarrow> string" where
  "quote_field t =
     (let v = double_quotes t in if needs_quoting v then [CHR 0x22] @ v @ [CHR 0x22] else v)"

definition record_cells :: "'n numops \<Rightarrow> 'n location \<Rightarrow> string list" where
  "record_cells ops row = map (\<lambda>h. cell_text ops (row_get row h)) headers"

text \<open>
  The characters that make \<open>downloadCSV\<close> quote a value. A text is safe from the reader's
  point of view when it holds no carriage return, or holds one of those characters as well
  (and is therefore quoted).
\<close>

definition special :: "char \<Rightarrow> bool" where
  "special c = (c = CHR 0x22 \<or> c = CHR '','' \<or> c = CHR 0x0A)"

definition cr_safe :: "string \<Rightarrow> bool" where
  "cr_safe t = (CHR 0x0D \<notin> set t \<or> (\<exists>c \<in> set t. special c))"

text \<open>
  For the proofs: the end of a field in the exported text (the text ends, or a comma or a
  line feed follows), and what the reader does there.
\<close>

definition ends_field :: "string \<Rightarrow> bool" where
  "ends_field rest = (case rest of [] \<Rightarrow> True | c # _ \<Rightarrow> c = CHR '','' \<or> c = CHR 0x0A)"

fun finish :: "string \<Rightarrow> string list \<Rightarrow> string \<Rightarrow> string list list" where
  "finish field row [] = [row @ [field]]"
| "finish field row (c # cs) =
     (if c = CHR '','' then parse_csv_from FieldStart [] (row @ [field]) cs
      else (row @ [field]) # parse_csv_from RecordStart [] [] cs)"

subsection \<open>The visibility rule as the specification words it\<close>

text \<open>
  Written from the specification's sentence, for comparison with \<open>visiblePredicate\<close>: the status
  is among the selected ones, the group is selected or no group is, and the search text is
  empty or occurs, ignoring case, in the school name or in the address.
\<close>

definition spec_visible :: "'n numops \<Rightarrow> filter_state \<Rightarrow> 'n location \<Rightarrow> bool" where
  "spec_visible ops f rec =
     (let q = lower (trim (searchBox f));
          school = String ops (or_empty ops (School rec));
          address = String ops (or_empty ops (Address rec))
      in normalizeStatus ops (Status rec) \<in> set (statusChk f)
         \<and> (has (groupSel f) (or_empty ops (Group rec)) \<or> groupSel f = [])
         \<and> (q = [] \<or> contains (lower school) q \<or> contains (lower address) q))"

subsection \<open>Words in any mix of cases\<close>

text \<open>
  \<open>same_letter d c\<close>: for a small letter \<open>d\<close> of a to z, the character \<open>c\<close> is \<open>d\<close> or its
  capital. \<open>any_case w s\<close>: the string \<open>s\<close> spells the lower-case word \<open>w\<close> in some mix of
  cases. \<open>number_like t\<close>: the text starts the way the text of a number does (a digit, a
  sign, a point, or the first letter of \<open>inf\<close>, \<open>nan\<close>, \<open>Infinity\<close>, \<open>NaN\<close>).
\<close>

definition same_letter :: "char \<Rightarrow> char \<Rightarrow> bool" where
  "same_letter d c = (c = d \<or> code c + 32 = code d)"

definition any_case :: "string \<Rightarrow> string \<Rightarrow> bool" where
  "any_case w s = list_all2 same_letter w s"

definition number_like :: "string \<Rightarrow> bool" where
  "number_like t = (case t of [] \<Rightarrow> False | c # _ \<Rightarrow> c \<in> set ''0123456789-+.iInN'')"

subsection \<open>Sample data\<close>

text \<open>
  A number is written here by its decimal text, which makes the three number operations
  plain functions on strings.
\<close>

definition text_ops :: "string numops" where
  "text_ops = \<lparr>num_truthy = (\<lambda>n. n \<noteq> ''0'' \<and> n \<noteq> ''NaN''),
               num_string = (\<lambda>n. n),
               num_finite = (\<lambda>n. n \<noteq> ''NaN'' \<and> n \<noteq> ''Infinity'' \<and> n \<noteq> ''-Infinity'')\<rparr>"

definition elm_ps :: "string location" where
  "elm_ps = \<lparr>School = JStr ''Elm PS'', Address = JStr ''123 Main St, Apt 4'', Group = JStr ''HRCE'',
             lat = JNum ''44.65'', lon = JNum ''-63.57'', Status = JStr ''none''\<rparr>"

definition oak_hs :: "string location" where
  "oak_hs = \<lparr>School = JStr ''Oak HS'', Address = JStr ''9 Shore Rd'', Group = JStr ''AVRCE'',
             lat = JNum ''45.1'', lon = JNum ''-64.2'', Status = JStr ''Active''\<rparr>"

definition ash_jh :: "string location" where
  "ash_jh = \<lparr>School = JStr ''Ash \"JH\"'', Address = JNull, Group = JNull,
             lat = JNum ''46'', lon = JNum ''-60.5'', Status = JStr ''recent''\<rparr>"

definition cr_school :: "string location" where
  "cr_school = \<lparr>School = JStr [CHR ''a'', CHR 0x0D, CHR ''b''], Address = JStr ''1 Elm St'',
                Group = JNull, lat = JNum ''44.65'', lon = JNum ''-63.57'', Status = JStr ''none''\<rparr>"

definition sample_store :: "string store" where
  "sample_store = \<lparr>DATA = [elm_ps, oak_hs, ash_jh], UNDO_STACK = [],
                   markers = [elm_ps, oak_hs, ash_jh], toast = None\<rparr>"

definition all_statuses :: "string list" where
  "all_statuses = [''none'', ''recent'', ''current'']"

text \<open>
  Two services: one whose first reply is an exception that is not transient and whose later
  replies are a location, and one that always times out.
\<close>

definition flaky :: "real service" where
  "flaky n q = (if n = 0 then Raises OtherException else Returns (Some (44.65, -63.57)))"

definition down :: "real service" where
  "down n q = Raises GeocoderTimedOut"

definition no_log :: geo_log where
  "no_log = \<lparr>calls = [], sleeps = []\<rparr>"

text \<open>
  A data frame whose cells are Python values with real numbers; \<open>float\<close> of a number cell is
  the number, and this sample has no numeric strings.
\<close>

fun sample_float :: "real pyval \<Rightarrow> real pyfloat option" where
  "sample_float (PNum x) = Some (Float x)"
| "sample_float _ = None"

definition unavailable :: "real pyfloat service" where
  "unavailable n q = Raises GeocoderUnavailable"

definition located_row :: "real pyval row" where
  "located_row = \<lparr>row_addr = ''1 Elm St, Nova Scotia, Canada'', row_lat = PNum 44.65,
                  row_lon = PNum (-63.57), row_school = PStr ''Elm PS'',
                  row_address = PStr ''1 Elm St''\<rparr>"

definition bare_row :: "real pyval row" where
  "bare_row = \<lparr>row_addr = ''9 Shore Rd, Nova Scotia, Canada'', row_lat = PNone,
               row_lon = PStr ''n/a'', row_school = PStr ''Oak HS'',
               row_address = PStr ''9 Shore Rd''\<rparr>"

definition caching :: args where
  "caching = \<lparr>no_cache = False, regeocode_failed = True\<rparr>"

definition start_state :: "(real pyval, real) build_state" where
  "start_state = \<lparr>cache = [(''9 Shore Rd, Nova Scotia, Canada'', Some (Float 45.1), Some (Float (-64.2)))],
                  cache_file = NoFile, geo = no_log, lats = [], lons = [], failed = []\<rparr>"

section \<open>Properties\<close>

subsection \<open>Lists and strings\<close>

lemma splice_insert_remove:
  "i < length xs \<Longrightarrow> splice_insert i (xs ! i) (splice_remove i xs) = xs"
  by (simp add: splice_insert_def splice_remove_def min_def id_take_nth_drop[symmetric])

lemma length_splice_remove: "i < length xs \<Longrightarrow> length (splice_remove i xs) = length xs - 1"
  by (simp add: splice_remove_def)

lemma eq_char_of_iff: "c = char_of (n::nat) \<longleftrightarrow> of_char c = take_bit 8 n"
  by (metis char_of_eq_iff)

lemmas string_eval = lower_def to_lower_char_def code_def char_of_eq_iff eq_char_of_iff
  strip_by_def Let_def

lemma contains_iff_sublist: "contains hay needle \<longleftrightarrow> sublist needle hay"
  by (induction hay) (auto simp: sublist_Cons_right)

lemma contains_append_suffix: "contains (s @ p @ n) n"
  using sublist_appendI [of n "s @ p" "[]"] by (simp add: contains_iff_sublist)

lemma contains_appendI1: "contains a q \<Longrightarrow> contains (a @ b) q"
  by (auto simp: contains_iff_sublist sublist_append)

lemma contains_appendI2: "contains b q \<Longrightarrow> contains (a @ b) q"
  by (auto simp: contains_iff_sublist sublist_append)

lemma to_lower_char_eq_iff:
  assumes "97 \<le> code d" "code d \<le> 122"
  shows "to_lower_char c = d \<longleftrightarrow> same_letter d c"
proof -
  have inj: "c = d \<longleftrightarrow> (of_char c :: nat) = of_char d"
    by simp
  have lt: "(of_char c :: nat) < 256"
    by simp
  show ?thesis
    using assms lt unfolding to_lower_char_def same_letter_def code_def Let_def char_of_eq_iff inj
    by (auto simp: take_bit_eq_mod)
qed

lemma lower_eq_iff_any_case:
  "\<forall>d \<in> set w. 97 \<le> code d \<and> code d \<le> 122 \<Longrightarrow> lower s = w \<longleftrightarrow> any_case w s"
proof (induction w arbitrary: s)
  case Nil
  then show ?case by (simp add: lower_def any_case_def)
next
  case (Cons d w)
  then have IH: "\<And>t. lower t = w \<longleftrightarrow> any_case w t" by simp
  from Cons.prems have d: "97 \<le> code d" "code d \<le> 122" by simp_all
  show ?case
  proof (cases s)
    case Nil
    then show ?thesis by (simp add: lower_def any_case_def)
  next
    case (Cons c t)
    have "lower (c # t) = d # w \<longleftrightarrow> to_lower_char c = d \<and> lower t = w"
      by (simp add: lower_def)
    then show ?thesis
      using Cons IH [of t] to_lower_char_eq_iff [OF d, of c] by (simp add: any_case_def)
  qed
qed

lemma word_iff:
  "lower s = ''current'' \<longleftrightarrow> any_case ''current'' s"
  "lower s = ''active'' \<longleftrightarrow> any_case ''active'' s"
  "lower s = ''both'' \<longleftrightarrow> any_case ''both'' s"
  "lower s = ''recent'' \<longleftrightarrow> any_case ''recent'' s"
  by (rule lower_eq_iff_any_case, simp add: code_def)+

lemma strip_by_hd:
  assumes "s \<noteq> []" "\<not> p (hd s)"
  shows "strip_by p s \<noteq> [] \<and> hd (strip_by p s) = hd s"
proof -
  from assms have d: "dropWhile p s = s" by (cases s) auto
  have ne: "dropWhile p (rev s) \<noteq> []"
    using assms by (metis dropWhile_eq_Nil_conv hd_in_set set_rev)
  have "rev s = takeWhile p (rev s) @ dropWhile p (rev s)" by simp
  then have "last (rev s) = last (dropWhile p (rev s))"
    using ne by (metis last_appendR)
  then have "last (dropWhile p (rev s)) = hd s"
    using assms by (simp add: last_rev)
  then show ?thesis
    using ne by (simp add: strip_by_def d hd_rev)
qed

lemma not_word_if_number_like:
  assumes "number_like t" "\<not> sp (hd t)" "w \<noteq> []" "hd w \<in> set ''abcr''"
  shows "lower (strip_by sp t) \<noteq> w"
proof -
  from assms(1) have ne: "t \<noteq> []" and h: "hd t \<in> set ''0123456789-+.iInN''"
    by (auto simp: number_like_def split: list.splits)
  from strip_by_hd [of t sp] ne assms(2) obtain c cs where s: "strip_by sp t = c # cs" and c: "c = hd t"
    by (cases "strip_by sp t") auto
  have "to_lower_char c \<notin> set ''abcr''"
    using h c by (auto simp: string_eval)
  then show ?thesis
    using assms(3,4) s by (cases w) (auto simp: lower_def)
qed

lemma number_like_not_space: "number_like t \<Longrightarrow> \<not> py_space (hd t) \<and> \<not> js_space (hd t)"
  by (auto simp: number_like_def py_space_def js_space_def code_def split: list.splits)

subsection \<open>Marker store\<close>

text \<open>
  C2. For a valid index \<open>i\<close>, Delete of the record at \<open>i\<close> followed at once by UndoDelete gives
  back the store it started from: \<open>DATA\<close> is the same list (so the record is again at index
  \<open>i\<close>, field for field, and nothing is duplicated) and \<open>UNDO_STACK\<close> is the same stack; the
  markers are the ones rebuilt from that list and the notice reads "Restored.".
  UndoDelete on an empty stack changes nothing but the notice, which reads "Nothing to undo.".
\<close>

theorem delete_then_undo:
  "(i < length (DATA st) \<longrightarrow>
      undoDelete ops (window_delete ops i st)
        = st\<lparr>markers := filter (\<lambda>r. isFinite ops (lat r) \<and> isFinite ops (lon r)) (DATA st),
             toast := Some ''Restored.''\<rparr>
      \<and> DATA (undoDelete ops (window_delete ops i st)) = DATA st
      \<and> DATA (undoDelete ops (window_delete ops i st)) ! i = DATA st ! i
      \<and> length (DATA (undoDelete ops (window_delete ops i st))) = length (DATA st)
      \<and> UNDO_STACK (undoDelete ops (window_delete ops i st)) = UNDO_STACK st) \<and>
   (UNDO_STACK st = [] \<longrightarrow> undoDelete ops st = st\<lparr>toast := Some ''Nothing to undo.''\<rparr>)"
  by (auto simp: undoDelete_def window_delete_def Let_def showToast_def rebuildMarkers_def
      splice_insert_remove length_splice_remove min_def)

theorem delete_then_undo_witness:
  "1 < length (DATA sample_store)
   \<and> DATA (window_delete text_ops 1 sample_store) = [elm_ps, ash_jh]
   \<and> DATA (undoDelete text_ops (window_delete text_ops 1 sample_store)) = [elm_ps, oak_hs, ash_jh]
   \<and> UNDO_STACK (undoDelete text_ops (window_delete text_ops 1 sample_store)) = []
   \<and> UNDO_STACK sample_store = []
   \<and> undoDelete text_ops sample_store = sample_store\<lparr>toast := Some ''Nothing to undo.''\<rparr>"
  using delete_then_undo [of 1 sample_store text_ops]
  by (simp add: sample_store_def window_delete_def splice_remove_def showToast_def
      rebuildMarkers_def Let_def)

subsection \<open>Geocoding client\<close>

lemma try_variant_raises:
  assumes "\<forall>j < length is. \<exists>e. fn (length (calls st) + j) v = Raises e"
  shows "try_variant fn b v (is @ rest) st =
           try_variant fn b v rest
             (st\<lparr>calls := calls st @ replicate (length is) v,
                 sleeps := sleeps st @ map (\<lambda>i. b * real (i + 1)) is\<rparr>)"
  using assms
proof (induction "is" arbitrary: st)
  case Nil
  then show ?case by simp
next
  case (Cons i "is")
  from Cons.prems obtain e where e: "fn (length (calls st)) v = Raises e"
    by fastforce
  let ?st = "st\<lparr>calls := calls st @ [v], sleeps := sleeps st @ [b * real (i + 1)]\<rparr>"
  have step: "try_variant fn b v ((i # is) @ rest) st = try_variant fn b v (is @ rest) ?st"
    using e by (cases e) simp_all
  have "\<forall>j < length is. \<exists>e. fn (length (calls ?st) + j) v = Raises e"
    using Cons.prems by fastforce
  from Cons.IH [OF this] step show ?case
    by (simp add: replicate_append_same)
qed


lemma try_variant_all_raise:
  assumes "\<forall>n q. \<exists>e. fn n q = Raises e"
  shows "try_variant fn b v is st =
           (None, st\<lparr>calls := calls st @ replicate (length is) v,
                      sleeps := sleeps st @ map (\<lambda>i. b * real (i + 1)) is\<rparr>)"
  using try_variant_raises [of "is" fn st v b "[]"] assms by simp

lemma try_variants_all_raise:
  assumes "\<forall>n q. \<exists>e. fn n q = Raises e"
  shows "try_variants fn b n vs st =
           (None, st\<lparr>calls := calls st @ concat (map (replicate n) vs),
                      sleeps := sleeps st @ concat (map (\<lambda>v. map (\<lambda>i. b * real (i + 1)) [0..<n]) vs)\<rparr>)"
proof (induction vs arbitrary: st)
  case Nil
  then show ?case by simp
next
  case (Cons v vs)
  show ?case
    by (simp add: try_variant_all_raise [OF assms] Cons.IH)
qed

lemma variants_hd: "\<exists>vs. variants address = address # vs"
  by (simp add: variants_def Let_def)

text \<open>
  C1, as stated, fails in its second half: an exception that is not transient is handled
  like a transient one. With a service whose first reply is such an exception and whose
  second reply is a location, \<open>geocode_address\<close> sleeps, asks again for the same variant and
  returns the location; under the specification's rule it would have left the variant after
  one call.
\<close>

theorem retry_counterexample:
  "geocode_address flaky ''X'' 3 2 no_log
     = ((Some 44.65, Some (-63.57)), \<lparr>calls = [''X'', ''X''], sleeps = [2]\<rparr>)
   \<and> spec_geocode_address flaky ''X'' 3 2 no_log = ((None, None), \<lparr>calls = [''X''], sleeps = []\<rparr>)"
  by code_simp

text \<open>
  C1, amended. For every variant, when the first \<open>k\<close> calls for it raise an exception of any
  kind, transient or not, the function sleeps \<open>backoff * attempt_number\<close> after each of them
  and goes on with the same variant from attempt \<open>k + 1\<close>; it falls through to the next
  variant only when all \<open>retries\<close> attempts are used up.
\<close>

theorem retry_after_any_failure:
  assumes "k \<le> retries" and "\<forall>j<k. \<exists>e. fn (length (calls st) + j) v = Raises e"
  shows "try_variant fn backoff v [0..<retries] st =
           try_variant fn backoff v [k..<retries]
             (st\<lparr>calls := calls st @ replicate k v,
                 sleeps := sleeps st @ map (\<lambda>i. backoff * real (i + 1)) [0..<k]\<rparr>)
         \<and> (k = retries \<longrightarrow>
              try_variants fn backoff retries (v # vs) st =
                try_variants fn backoff retries vs
                  (st\<lparr>calls := calls st @ replicate k v,
                      sleeps := sleeps st @ map (\<lambda>i. backoff * real (i + 1)) [0..<k]\<rparr>))"
proof -
  have split: "[0..<retries] = [0..<k] @ [k..<retries]"
    using assms(1) by (metis le_add_diff_inverse upt_add_eq_append zero_le)
  have a: "try_variant fn backoff v [0..<retries] st =
           try_variant fn backoff v [k..<retries]
             (st\<lparr>calls := calls st @ replicate k v,
                 sleeps := sleeps st @ map (\<lambda>i. backoff * real (i + 1)) [0..<k]\<rparr>)"
    unfolding split using try_variant_raises [of "[0..<k]" fn st v backoff "[k..<retries]"] assms(2)
    by simp
  then show ?thesis
    by simp
qed

theorem retry_after_any_failure_witness:
  "flaky 0 ''X'' = Raises OtherException
   \<and> try_variant flaky 2 ''X'' [0..<3] no_log
       = (Some (44.65, -63.57), \<lparr>calls = [''X'', ''X''], sleeps = [2]\<rparr>)
   \<and> try_variants down 2 3 [''X'', ''Y''] no_log
       = try_variants down 2 3 [''Y''] \<lparr>calls = [''X'', ''X'', ''X''], sleeps = [2, 4, 6]\<rparr>"
  using retry_after_any_failure [of 1 3 flaky no_log "''X''" 2 "[]"]
    retry_after_any_failure [of 3 3 down no_log "''X''" 2 "[''Y'']"]
  by (simp add: flaky_def down_def no_log_def upt_rec numeral_3_eq_3)

text \<open>
  C7. If every call to the service raises, \<open>geocode_address\<close> with \<open>retries = 3\<close> returns
  \<open>(None, None)\<close> (it has no other outcome: no exception leaves it), having called the
  service exactly three times for each variant, variant after variant, with sleeps of
  \<open>backoff\<close>, \<open>2 * backoff\<close> and \<open>3 * backoff\<close> for each of them. The first variant is the
  address itself.
\<close>

theorem all_calls_fail:
  assumes "\<forall>n q. \<exists>e. fn n q = Raises e"
  shows "geocode_address fn address 3 backoff st =
           ((None, None),
            st\<lparr>calls := calls st @ concat (map (replicate 3) (variants address)),
               sleeps := sleeps st @
                 concat (map (\<lambda>v. [backoff * 1, backoff * 2, backoff * 3]) (variants address))\<rparr>)
         \<and> hd (variants address) = address \<and> variants address \<noteq> []"
proof -
  have "map (\<lambda>i. backoff * real (i + 1)) [0..<3] = [backoff * 1, backoff * 2, backoff * 3]"
    by (simp add: upt_rec)
  then show ?thesis
    using variants_hd [of address]
    by (auto simp add: geocode_address_def try_variants_all_raise [OF assms])
qed

theorem all_calls_fail_witness:
  "down 0 ''X'' = Raises GeocoderTimedOut
   \<and> variants ''Truro B2N 1A1'' = [''Truro B2N 1A1'', ''Truro'']
   \<and> geocode_address down ''Truro B2N 1A1'' 3 2 no_log =
       ((None, None), \<lparr>calls = [''Truro B2N 1A1'', ''Truro B2N 1A1'', ''Truro B2N 1A1'',
                                  ''Truro'', ''Truro'', ''Truro''],
                        sleeps = [2, 4, 6, 2, 4, 6]\<rparr>)"
proof -
  have v: "variants ''Truro B2N 1A1'' = [''Truro B2N 1A1'', ''Truro'']"
    by code_simp
  have d: "\<forall>n q. \<exists>e. down n q = Raises e"
    by (simp add: down_def)
  have e: "down 0 ''X'' = Raises GeocoderTimedOut"
    by (simp add: down_def)
  from all_calls_fail [OF d, of "''Truro B2N 1A1''" 2 no_log] e show ?thesis
    unfolding v by (simp add: no_log_def numeral_3_eq_3)
qed


subsection \<open>Geocode cache\<close>

lemma update_fresh: "k \<notin> fst ` set al \<Longrightarrow> AList.update k v al = al @ [(k, v)]"
  by (induction al) auto

lemma read_write_cell:
  "v \<noteq> Some NaN \<Longrightarrow> (let x = read_cell (write_cell v) in if notna x then Some x else None) = v"
  by (cases v rule: write_cell.cases) simp_all

lemma foldl_update_distinct:
  assumes "distinct (map fst rows)" "fst ` set acc \<inter> fst ` set rows = {}"
  shows "foldl (\<lambda>out (k, v). AList.update k (f v) out) acc rows = acc @ map (\<lambda>(k, v). (k, f v)) rows"
  using assms
proof (induction rows arbitrary: acc)
  case Nil
  then show ?case by simp
next
  case (Cons r rows)
  obtain k v where r: "r = (k, v)" by (cases r)
  have fresh: "k \<notin> fst ` set acc"
    using Cons.prems(2) r by auto
  have "fst ` set (acc @ [(k, f v)]) \<inter> fst ` set rows = {}"
    using Cons.prems r by (auto simp: image_iff)
  with Cons.IH [of "acc @ [(k, f v)]"] Cons.prems(1) r fresh show ?case
    by (simp add: update_fresh)
qed


text \<open>
  C6, as stated, fails. \<open>save_cache\<close> returns at once for an empty map, so the file keeps its
  earlier rows and loading gives them back instead of the empty map. A coordinate that is
  \<open>nan\<close> is written as an empty cell and loaded as \<open>None\<close>. And a key that pandas takes for a
  missing value, such as "NA", does not come back as that key. (All three even if pandas
  read every other address column back as text.)
\<close>

theorem save_cache_not_wholesale:
  "load_cache (\<lambda>ks. True)
      (save_cache (Table [(''1 Elm St, Nova Scotia, Canada'', Some (1::real), Some 2)]) [])
     = Dict [(''1 Elm St, Nova Scotia, Canada'', Some (Float 1), Some (Float 2))]
   \<and> load_cache (\<lambda>ks. True)
        (save_cache NoFile [(''1 Elm St, Nova Scotia, Canada'', Some (NaN :: real pyfloat), Some NaN)])
     = Dict [(''1 Elm St, Nova Scotia, Canada'', None, None)]
   \<and> load_cache (\<lambda>ks. True) (save_cache NoFile [(''NA'', Some (Float (1::real)), Some (Float 2))])
     = OtherKeys"
  by (simp add: load_cache_def save_cache_def na_values_def)

text \<open>
  C6, amended. For every non-empty cache map whose keys pandas reads back as the strings
  written (none of them one of its missing-value texts, and the address column read as
  text) and whose coordinates are numbers or \<open>None\<close> (no \<open>nan\<close>), whatever the file held
  before, \<open>save_cache\<close> followed by \<open>load_cache\<close> gives back the same map, hence the same pair
  for every key, pairs of \<open>None\<close> included; the file written depends on the map only. Saving
  an empty map leaves the file as it was. (The keys of a \<open>dict\<close> are distinct.)
\<close>

theorem cache_round_trip:
  assumes "c \<noteq> []" and "distinct (map fst c)"
    and "\<forall>(a, la, lo) \<in> set c. la \<noteq> Some NaN \<and> lo \<noteq> Some NaN"
    and "\<forall>(a, la, lo) \<in> set c. a \<notin> set na_values"
    and "reads_as_text (map fst c)"
  shows "load_cache reads_as_text (save_cache file c) = Dict c
         \<and> save_cache file c = save_cache NoFile c
         \<and> save_cache file [] = file"
proof -
  let ?f = "\<lambda>(la, lo). (if notna (read_cell la) then Some (read_cell la) else None,
                        if notna (read_cell lo) then Some (read_cell lo) else None)"
  let ?rows = "map (\<lambda>(a, v). (a, write_cell (fst v), write_cell (snd v))) c"
  have step: "(\<lambda>out (address, la, lo).
                   let lat = read_cell la; lon = read_cell lo
                   in AList.update address
                        (if notna lat then Some lat else None, if notna lon then Some lon else None)
                        out) = (\<lambda>out (k, v). AList.update k (?f v) out)"
    by (auto simp: fun_eq_iff Let_def)
  have keys: "map fst ?rows = map fst c"
    by (induction c) auto
  have d: "distinct (map fst ?rows)"
    using assms(2) by (simp only: keys)
  have na: "\<not> (\<exists>address \<in> set (map fst ?rows). address \<in> set na_values)"
    unfolding keys using assms(4) by auto
  have astext: "\<not> (?rows \<noteq> [] \<and> \<not> reads_as_text (map fst ?rows))"
    unfolding keys using assms(5) by simp
  have fold: "foldl (\<lambda>out (k, v). AList.update k (?f v) out) [] ?rows
                = [] @ map (\<lambda>(k, v). (k, ?f v)) ?rows"
    by (rule foldl_update_distinct [OF d]) simp
  have same: "map (\<lambda>(k, v). (k, ?f v)) ?rows = c"
  proof -
    have "(\<lambda>(k, v). (k, ?f v)) ((\<lambda>(a, v). (a, write_cell (fst v), write_cell (snd v))) e) = e"
      if "e \<in> set c" for e
    proof -
      obtain a la lo where e: "e = (a, la, lo)" by (cases e)
      with that assms(3) have "la \<noteq> Some NaN" "lo \<noteq> Some NaN" by auto
      then show ?thesis
        using read_write_cell [of la] read_write_cell [of lo] by (simp add: e Let_def)
    qed
    then show ?thesis
      by (simp add: map_idI)
  qed
  have cond: "\<not> ((\<exists>address \<in> set (map fst ?rows). address \<in> set na_values)
                  \<or> (?rows \<noteq> [] \<and> \<not> reads_as_text (map fst ?rows)))"
    using na astext by blast
  have "load_cache reads_as_text (Table ?rows) = Dict c"
    unfolding load_cache_def cache_file.case step if_not_P [OF cond] fold same
    by simp
  then show ?thesis
    using assms(1) by (simp add: save_cache_def)
qed

theorem cache_round_trip_witness:
  "load_cache (\<lambda>ks. True)
     (save_cache (Table [(''9 Shore Rd, Nova Scotia, Canada'', Some 1, Some 2)])
        [(''1 Elm St, Nova Scotia, Canada'', Some (Float (44.65::real)), Some (Float (-63.57))),
         (''2 Oak St, Nova Scotia, Canada'', None, None)])
   = Dict [(''1 Elm St, Nova Scotia, Canada'', Some (Float 44.65), Some (Float (-63.57))),
           (''2 Oak St, Nova Scotia, Canada'', None, None)]"
  using cache_round_trip [of
      "[(''1 Elm St, Nova Scotia, Canada'', Some (Float (44.65::real)), Some (Float (-63.57))),
        (''2 Oak St, Nova Scotia, Canada'', None, None)]"
      "\<lambda>ks. True" "Table [(''9 Shore Rd, Nova Scotia, Canada'', Some 1, Some 2)]", THEN conjunct1]
  by (simp add: na_values_def)

subsection \<open>Dataset builder\<close>

text \<open>
  C4. For a row whose \<open>lat\<close> and \<open>lon\<close> cells both convert with \<open>float\<close>, the loop body uses
  those coordinates as they are, makes no service call and records no failure; with caching
  on it stores the pair in the cache under the row's normalized address, with \<open>--no-cache\<close>
  it leaves the cache alone. A row without such cells whose address has a cache entry with
  two coordinates takes them from the cache, again without a service call.
\<close>

theorem existing_coordinates_used:
  "(has_latlon \<and> to_float (row_lat row) = Some x \<and> to_float (row_lon row) = Some y \<longrightarrow>
      geo (process_row geocode_fn to_float a has_latlon st row) = geo st
      \<and> lats (process_row geocode_fn to_float a has_latlon st row) = lats st @ [Some x]
      \<and> lons (process_row geocode_fn to_float a has_latlon st row) = lons st @ [Some y]
      \<and> failed (process_row geocode_fn to_float a has_latlon st row) = failed st
      \<and> (\<not> no_cache a \<longrightarrow>
           map_of (cache (process_row geocode_fn to_float a has_latlon st row)) (row_addr row)
             = Some (Some x, Some y))
      \<and> (no_cache a \<longrightarrow> cache (process_row geocode_fn to_float a has_latlon st row) = cache st))
   \<and> (prev_latlon to_float has_latlon row = (None, None) \<and> \<not> no_cache a
        \<and> map_of (cache st) (row_addr row) = Some (Some la, Some lo) \<longrightarrow>
      geo (process_row geocode_fn to_float a has_latlon st row) = geo st
      \<and> lats (process_row geocode_fn to_float a has_latlon st row) = lats st @ [Some la]
      \<and> lons (process_row geocode_fn to_float a has_latlon st row) = lons st @ [Some lo]
      \<and> cache (process_row geocode_fn to_float a has_latlon st row) = cache st)"
  by (auto simp: process_row_def prev_latlon_def resolve_def Let_def update_conv')


theorem existing_coordinates_used_witness:
  "sample_float (row_lat located_row) = Some (Float 44.65)
   \<and> sample_float (row_lon located_row) = Some (Float (-63.57))
   \<and> geo (process_row unavailable sample_float caching True start_state located_row) = no_log
   \<and> lats (process_row unavailable sample_float caching True start_state located_row)
       = [Some (Float 44.65)]
   \<and> cache (process_row unavailable sample_float caching True start_state located_row)
       = [(''9 Shore Rd, Nova Scotia, Canada'', Some (Float 45.1), Some (Float (-64.2))),
          (''1 Elm St, Nova Scotia, Canada'', Some (Float 44.65), Some (Float (-63.57)))]
   \<and> prev_latlon sample_float True bare_row = (None, None)
   \<and> geo (process_row unavailable sample_float caching True start_state bare_row) = no_log
   \<and> lats (process_row unavailable sample_float caching True start_state bare_row)
       = [Some (Float 45.1)]"
  using existing_coordinates_used [of True sample_float located_row "Float 44.65" "Float (-63.57)"
      unavailable caching start_state]
    existing_coordinates_used [of True sample_float bare_row _ _ unavailable caching start_state
      "Float 45.1" "Float (-64.2)"]
  by (simp add: located_row_def bare_row_def caching_def start_state_def prev_latlon_def
      process_row_def resolve_def Let_def)

subsection \<open>Address normalizer\<close>

lemma add_region_tokens:
  "contains (add_region s) ''Nova Scotia'' \<and> contains (add_region s) ''Canada''"
proof -
  define s1 where
    "s1 = (if \<not> contains s ''Nova Scotia'' \<and> re_search False (Seqs [WordB, Lit ''NS'', WordB]) s
           then replace '' NS'' '', Nova Scotia'' s else s)"
  define s2 where "s2 = (if \<not> contains s1 ''Nova Scotia'' then s1 @ '', Nova Scotia'' else s1)"
  define s3 where "s3 = (if \<not> contains s2 ''Canada'' then s2 @ '', Canada'' else s2)"
  have r: "add_region s = s3"
    unfolding add_region_def Let_def s3_def s2_def s1_def ..
  have e1: "contains (t @ '', Nova Scotia'') ''Nova Scotia''" for t
    using contains_append_suffix [of t "'', ''" "''Nova Scotia''"] by simp
  have e2: "contains (t @ '', Canada'') ''Canada''" for t
    using contains_append_suffix [of t "'', ''" "''Canada''"] by simp
  have a: "contains s2 ''Nova Scotia''"
  proof (cases "contains s1 ''Nova Scotia''")
    case True
    then show ?thesis by (simp only: s2_def simp_thms if_False)
  next
    case False
    then show ?thesis using e1 [of s1] by (simp only: s2_def simp_thms if_True)
  qed
  have b: "contains s3 ''Canada''"
  proof (cases "contains s2 ''Canada''")
    case True
    then show ?thesis by (simp only: s3_def simp_thms if_False)
  next
    case False
    then show ?thesis using e2 [of s2] by (simp only: s3_def simp_thms if_True)
  qed
  have c: "contains s3 ''Nova Scotia''"
  proof (cases "contains s2 ''Canada''")
    case True
    then show ?thesis using a by (simp only: s3_def simp_thms if_False)
  next
    case False
    then show ?thesis using contains_appendI1 [OF a] by (simp only: s3_def simp_thms if_True)
  qed
  from b c r show ?thesis by simp
qed

lemma add_region_fixed:
  "contains s ''Nova Scotia'' \<Longrightarrow> contains s ''Canada'' \<Longrightarrow> add_region s = s"
  unfolding add_region_def Let_def by (simp only: simp_thms if_False)

text \<open>
  C5, as stated, fails: the function is not idempotent. The empty address becomes
  ", Nova Scotia, Canada", and a second pass strips the leading separator from that.
\<close>

theorem normalize_address_not_idempotent:
  "normalize_address (PStr [] :: string pyval) = '', Nova Scotia, Canada''
   \<and> normalize_address (PStr (normalize_address (PStr [] :: string pyval)) :: string pyval)
       = ''Nova Scotia, Canada''"
  by code_simp

text \<open>
  C5, amended. \<open>normalize_address\<close> returns a string for every argument (no statement of it
  can raise): the empty string for an argument that is not a string, and for every string,
  empty or not, a string that contains both "Nova Scotia" and "Canada". A second pass
  returns the first result whenever the cleanup steps (trim, box and route tokens, station,
  white space, separators) leave that result as it is.
\<close>

theorem normalize_address_tokens:
  "normalize_address (PNone :: 'f pyval) = []
   \<and> normalize_address (PBool b :: 'f pyval) = []
   \<and> normalize_address (PNum x :: 'f pyval) = []
   \<and> contains (normalize_address (PStr a :: 'f pyval)) ''Nova Scotia''
   \<and> contains (normalize_address (PStr a :: 'f pyval)) ''Canada''
   \<and> (cleanup (normalize_address (PStr a :: 'f pyval)) = normalize_address (PStr a :: 'f pyval) \<longrightarrow>
        normalize_address (PStr (normalize_address (PStr a :: 'f pyval)) :: 'f pyval)
          = normalize_address (PStr a :: 'f pyval))"
proof -
  have n: "normalize_address (PStr t :: 'f pyval) = add_region (cleanup t)" for t
    by (simp add: normalize_address_def)
  have t: "contains (add_region (cleanup a)) ''Nova Scotia''"
    "contains (add_region (cleanup a)) ''Canada''"
    using add_region_tokens [of "cleanup a"] by blast+
  have i: "add_region (cleanup (add_region (cleanup a))) = add_region (cleanup a)"
    if "cleanup (add_region (cleanup a)) = add_region (cleanup a)"
    unfolding that using t by (rule add_region_fixed)
  show ?thesis
    unfolding n using t i by (simp add: normalize_address_def)
qed

theorem normalize_address_tokens_witness:
  "normalize_address (PStr ''Truro NS'' :: string pyval) = ''Truro, Nova Scotia, Canada''
   \<and> cleanup ''Truro, Nova Scotia, Canada'' = ''Truro, Nova Scotia, Canada''
   \<and> normalize_address (PStr ''Truro, Nova Scotia, Canada'' :: string pyval)
       = ''Truro, Nova Scotia, Canada''"
proof -
  have n: "normalize_address (PStr ''Truro NS'' :: string pyval) = ''Truro, Nova Scotia, Canada''"
    by code_simp
  have c: "cleanup ''Truro, Nova Scotia, Canada'' = ''Truro, Nova Scotia, Canada''"
    by code_simp
  from normalize_address_tokens [where a = "''Truro NS''" and 'f = string] n c show ?thesis
    by (simp only: simp_thms)
qed

subsection \<open>Status\<close>

text \<open>
  C8. Both status readers, \<open>normalize_status_value\<close> of the pipeline and \<open>normalizeStatus\<close> of
  the page, return one of "none", "recent", "current": a text that, trimmed, spells "current",
  "active" or "both" in any mix of cases gives "current", one that spells "recent" gives
  "recent", and every other text gives "none". \<open>None\<close>, \<open>null\<close>, \<open>undefined\<close> and the booleans
  give "none", and so does a number, whose text starts with a digit, a sign, a point or the
  first letter of \<open>inf\<close>, \<open>nan\<close>, \<open>Infinity\<close>, \<open>NaN\<close>.
\<close>

theorem status_normalized:
  "normalize_status_value rp v =
     (let t = strip (py_str rp v)
      in if any_case ''current'' t \<or> any_case ''active'' t \<or> any_case ''both'' t then ''current''
         else if any_case ''recent'' t then ''recent'' else ''none'')
   \<and> normalizeStatus ops w =
     (let t = trim (String ops (or_empty ops w))
      in if any_case ''current'' t \<or> any_case ''active'' t \<or> any_case ''both'' t then ''current''
         else if any_case ''recent'' t then ''recent'' else ''none'')
   \<and> normalize_status_value rp v \<in> {''none'', ''recent'', ''current''}
   \<and> normalizeStatus ops w \<in> {''none'', ''recent'', ''current''}
   \<and> normalize_status_value rp PNone = ''none''
   \<and> normalize_status_value rp (PBool b) = ''none''
   \<and> normalizeStatus ops JNull = ''none''
   \<and> normalizeStatus ops (JBool b) = ''none''
   \<and> (number_like (rp x) \<longrightarrow> normalize_status_value rp (PNum x) = ''none'')
   \<and> (number_like (num_string ops n) \<longrightarrow> normalizeStatus ops (JNum n) = ''none'')"
proof -
  have py: "normalize_status_value rp v =
     (let t = strip (py_str rp v)
      in if any_case ''current'' t \<or> any_case ''active'' t \<or> any_case ''both'' t then ''current''
         else if any_case ''recent'' t then ''recent'' else ''none'')" for v :: "'a pyval"
    by (simp add: normalize_status_value_def word_iff Let_def)
  have js: "normalizeStatus ops w =
     (let t = trim (String ops (or_empty ops w))
      in if any_case ''current'' t \<or> any_case ''active'' t \<or> any_case ''both'' t then ''current''
         else if any_case ''recent'' t then ''recent'' else ''none'')" for w :: "'b jsval"
  proof -
    have "normalizeStatus ops w =
       (let t = lower (trim (String ops (or_empty ops w)))
        in if t = ''current'' \<or> t = ''active'' \<or> t = ''both'' then ''current''
           else if t = ''recent'' then ''recent'' else ''none'')"
      by (auto simp add: normalizeStatus_def Let_def)
    then show ?thesis
      by (simp add: word_iff Let_def)
  qed
  have r1: "normalize_status_value rp v \<in> {''none'', ''recent'', ''current''}"
    by (simp add: normalize_status_value_def Let_def)
  have r2: "normalizeStatus ops w \<in> {''none'', ''recent'', ''current''}"
    by (simp add: normalizeStatus_def Let_def)
  have n1: "normalize_status_value rp PNone = ''none''"
    by (simp add: normalize_status_value_def strip_def py_space_def string_eval)
  have n2: "normalize_status_value rp (PBool b) = ''none''"
    by (simp add: normalize_status_value_def strip_def py_space_def string_eval)
  have n3: "normalizeStatus ops JNull = ''none''"
    by (simp add: normalizeStatus_def or_empty_def trim_def js_space_def string_eval)
  have n4: "normalizeStatus ops (JBool b) = ''none''"
    by (simp add: normalizeStatus_def or_empty_def trim_def js_space_def string_eval)
  have n5: "normalize_status_value rp (PNum x) = ''none''" if "number_like (rp x)"
    using not_word_if_number_like [OF that, of py_space] number_like_not_space [OF that]
    by (simp add: normalize_status_value_def strip_def Let_def)
  have n6: "normalizeStatus ops (JNum n) = ''none''" if "number_like (num_string ops n)"
  proof (cases "num_truthy ops n")
    case True
    then show ?thesis
      using not_word_if_number_like [OF that, of js_space] number_like_not_space [OF that]
      by (simp add: normalizeStatus_def trim_def or_empty_def Let_def)
  next
    case False
    then show ?thesis
      by (simp add: normalizeStatus_def or_empty_def trim_def js_space_def string_eval)
  qed
  from py js r1 r2 n1 n2 n3 n4 n5 n6 show ?thesis by blast
qed

theorem status_normalized_witness:
  "number_like ''44.65'' \<and> number_like ''-63.57''
   \<and> normalize_status_value (\<lambda>n. n) (PNum ''44.65'') = ''none''
   \<and> normalizeStatus text_ops (JNum ''-63.57'') = ''none''
   \<and> normalize_status_value (\<lambda>n. n) (PStr '' Active '' :: string pyval) = ''current''
   \<and> normalizeStatus text_ops (JStr ''BOTH'') = ''current''"
  using status_normalized [where rp = "\<lambda>n. n" and v = "PStr '' Active ''" and ops = text_ops
      and w = "JStr ''BOTH''" and x = "''44.65''" and n = "''-63.57''"]
  by (simp add: number_like_def text_ops_def or_empty_def any_case_def same_letter_def
      strip_def trim_def py_space_def js_space_def string_eval)

subsection \<open>View synchronizer\<close>

lemma lower_append: "lower (a @ b) = lower a @ lower b"
  by (simp add: lower_def)

text \<open>
  C3, as stated, fails: the script searches the school name and the address joined by a
  space, so the text "a b" finds the school "A" at the address "B", although it occurs in
  neither of the two.
\<close>

theorem visible_not_spec_visible:
  "visiblePredicate text_ops
      \<lparr>statusChk = all_statuses, groupSel = [], searchBox = ''a b''\<rparr>
      \<lparr>School = JStr ''A'', Address = JStr ''B'', Group = JNull,
       lat = JNum ''44.65'', lon = JNum ''-63.57'', Status = JStr ''none''\<rparr>
   \<and> \<not> spec_visible text_ops
      \<lparr>statusChk = all_statuses, groupSel = [], searchBox = ''a b''\<rparr>
      \<lparr>School = JStr ''A'', Address = JStr ''B'', Group = JNull,
       lat = JNum ''44.65'', lon = JNum ''-63.57'', Status = JStr ''none''\<rparr>"
  by (simp add: visiblePredicate_def spec_visible_def normalizeStatus_def all_statuses_def
      or_empty_def trim_def js_space_def string_eval)

text \<open>
  C3, amended. A record is visible iff its normalized status is among the selected ones,
  and its group is selected or no group is, and the trimmed, lower-cased search text is empty
  or occurs in the lower-cased text "school name, one space, address". A search text that
  occurs, ignoring case, in the school name or in the address is one such text, so the
  specification's rule implies visibility.
\<close>

theorem visible_iff:
  "(visiblePredicate ops f rec \<longleftrightarrow>
      normalizeStatus ops (Status rec) \<in> set (statusChk f)
      \<and> (has (groupSel f) (or_empty ops (Group rec)) \<or> groupSel f = [])
      \<and> (lower (trim (searchBox f)) = []
          \<or> contains (lower (String ops (or_empty ops (School rec)) @ '' '' @
                             String ops (or_empty ops (Address rec))))
                      (lower (trim (searchBox f)))))
   \<and> (spec_visible ops f rec \<longrightarrow> visiblePredicate ops f rec)"
proof -
  have "contains (lower (a @ '' '' @ b)) q" if "contains (lower a) q \<or> contains (lower b) q"
    for a b q
  proof -
    have "lower (a @ '' '' @ b) = lower a @ (lower '' '' @ lower b)"
      by (simp only: lower_append)
    with that show ?thesis
      by (auto intro: contains_appendI1 contains_appendI2)
  qed
  then show ?thesis
    by (auto simp: visiblePredicate_def spec_visible_def Let_def)
qed

theorem visible_iff_witness:
  "spec_visible text_ops \<lparr>statusChk = all_statuses, groupSel = [''HRCE''], searchBox = '' ELM ''\<rparr> elm_ps
   \<and> visiblePredicate text_ops
        \<lparr>statusChk = all_statuses, groupSel = [''HRCE''], searchBox = '' ELM ''\<rparr> elm_ps
   \<and> \<not> visiblePredicate text_ops
        \<lparr>statusChk = all_statuses, groupSel = [''HRCE''], searchBox = '' ELM ''\<rparr> oak_hs"
  using visible_iff [of text_ops "\<lparr>statusChk = all_statuses, groupSel = [''HRCE''], searchBox = '' ELM ''\<rparr>" elm_ps]
    visible_iff [of text_ops "\<lparr>statusChk = all_statuses, groupSel = [''HRCE''], searchBox = '' ELM ''\<rparr>" oak_hs]
  by (simp add: spec_visible_def normalizeStatus_def all_statuses_def elm_ps_def oak_hs_def
      or_empty_def trim_def js_space_def has_def string_eval)

subsection \<open>CSV export\<close>

lemma quoted_content:
  "parse_csv_from Quoted f row (double_quotes t @ CHR 0x22 # rest) = parse_csv_from QuoteSeen (f @ t) row rest"
  by (induction t arbitrary: f) simp_all

lemma unquoted_content:
  "\<forall>c \<in> set t. \<not> special c \<and> c \<noteq> CHR 0x0D \<Longrightarrow>
     parse_csv_from Unquoted f row (t @ rest) = parse_csv_from Unquoted (f @ t) row rest"
  by (induction t arbitrary: f) (simp_all add: special_def)

lemma finish_QuoteSeen: "ends_field rest \<Longrightarrow> parse_csv_from QuoteSeen f row rest = finish f row rest"
  by (cases rest) (auto simp: ends_field_def)

lemma finish_Unquoted: "ends_field rest \<Longrightarrow> parse_csv_from Unquoted f row rest = finish f row rest"
  by (cases rest) (auto simp: ends_field_def)

lemma finish_FieldStart: "ends_field rest \<Longrightarrow> parse_csv_from FieldStart [] row rest = finish [] row rest"
  by (cases rest) (auto simp: ends_field_def)

lemma needs_quoting_double: "needs_quoting (double_quotes t) \<longleftrightarrow> (\<exists>c \<in> set t. special c)"
  by (induction t) (auto simp: needs_quoting_def special_def)

lemma double_quotes_plain: "\<forall>c \<in> set t. \<not> special c \<Longrightarrow> double_quotes t = t"
  by (induction t) (auto simp: special_def)

lemma read_field:
  assumes "ends_field rest" "cr_safe t"
  shows "parse_csv_from FieldStart [] row (quote_field t @ rest) = finish t row rest"
proof (cases "\<exists>c \<in> set t. special c")
  case True
  then have "quote_field t = CHR 0x22 # double_quotes t @ [CHR 0x22]"
    by (simp add: quote_field_def needs_quoting_double)
  then show ?thesis
    using quoted_content [of "[]" row t rest] finish_QuoteSeen [OF assms(1)] by simp
next
  case False
  then have plain: "\<forall>c \<in> set t. \<not> special c" by simp
  have "\<not> needs_quoting (double_quotes t)"
    using False by (simp only: needs_quoting_double not_False_eq_True)
  then have q: "quote_field t = t"
    by (simp add: quote_field_def double_quotes_plain [OF plain])
  from False assms(2) have nocr: "CHR 0x0D \<notin> set t"
    by (auto simp: cr_safe_def)
  show ?thesis
  proof (cases t)
    case Nil
    then show ?thesis using q finish_FieldStart [OF assms(1)] by simp
  next
    case (Cons c t')
    with plain nocr have c: "\<not> special c" "c \<noteq> CHR 0x0D"
      and t': "\<forall>c \<in> set t'. \<not> special c \<and> c \<noteq> CHR 0x0D" by auto
    have "parse_csv_from FieldStart [] row ((c # t') @ rest) = parse_csv_from Unquoted [c] row (t' @ rest)"
      using c by (simp add: special_def)
    also have "\<dots> = parse_csv_from Unquoted ([c] @ t') row rest"
      by (rule unquoted_content [OF t'])
    also have "\<dots> = finish t row rest"
      using finish_Unquoted [OF assms(1)] Cons by simp
    finally show ?thesis using q Cons by simp
  qed
qed

lemma record_start:
  assumes "s \<noteq> []" "hd s \<noteq> CHR 0x0A" "hd s \<noteq> CHR 0x0D"
  shows "parse_csv_from RecordStart [] [] s = parse_csv_from FieldStart [] [] s"
  using assms by (cases s) simp_all

lemma quote_field_hd:
  assumes "cr_safe t"
  shows "hd (quote_field t @ CHR '','' # rest) \<noteq> CHR 0x0A \<and> hd (quote_field t @ CHR '','' # rest) \<noteq> CHR 0x0D"
proof (cases "\<exists>c \<in> set t. special c")
  case True
  then have "quote_field t = CHR 0x22 # double_quotes t @ [CHR 0x22]"
    by (simp add: quote_field_def needs_quoting_double)
  then show ?thesis by simp
next
  case False
  then have plain: "\<forall>c \<in> set t. \<not> special c" by simp
  have "\<not> needs_quoting (double_quotes t)"
    using False by (simp only: needs_quoting_double not_False_eq_True)
  then have q: "quote_field t = t"
    by (simp add: quote_field_def double_quotes_plain [OF plain])
  from False assms have nocr: "CHR 0x0D \<notin> set t"
    by (auto simp: cr_safe_def)
  show ?thesis
    using plain nocr unfolding q by (cases t) (auto simp: special_def)
qed


lemma join_Cons: "xs \<noteq> [] \<Longrightarrow> join sep (x # xs) = x @ sep @ join sep xs"
  by (cases xs) simp_all

lemma read_row:
  assumes "fs \<noteq> []" "\<forall>t \<in> set fs. cr_safe t"
  shows "parse_csv_from FieldStart [] row (join '','' (map quote_field fs)) = [row @ fs]"
    and "parse_csv_from FieldStart [] row (join '','' (map quote_field fs) @ CHR 0x0A # rest)
           = (row @ fs) # parse_csv_from RecordStart [] [] rest"
  using assms
proof (induction fs arbitrary: row)
  case Nil
  {
    case 1 then show ?case by simp
  next
    case 2 then show ?case by simp
  }
next
  case (Cons f fs)
  {
    case 1
    then have f: "cr_safe f" and fs: "\<forall>t \<in> set fs. cr_safe t" by simp_all
    show ?case
    proof (cases fs)
      case Nil
      then show ?thesis
        using read_field [of "[]" f row] f by (simp add: ends_field_def)
    next
      case (Cons g gs)
      then have ne: "fs \<noteq> []" by simp
      have "parse_csv_from FieldStart [] row (quote_field f @ CHR '','' # join '','' (map quote_field fs))
              = parse_csv_from FieldStart [] (row @ [f]) (join '','' (map quote_field fs))"
        using read_field [of "CHR '','' # join '','' (map quote_field fs)" f row] f
        by (simp add: ends_field_def)
      then show ?thesis
        using Cons.IH(1) [OF ne fs, of "row @ [f]"] ne by (simp add: join_Cons)
    qed
  next
    case 2
    then have f: "cr_safe f" and fs: "\<forall>t \<in> set fs. cr_safe t" by simp_all
    show ?case
    proof (cases fs)
      case Nil
      then show ?thesis
        using read_field [of "CHR 0x0A # rest" f row] f by (simp add: ends_field_def)
    next
      case (Cons g gs)
      then have ne: "fs \<noteq> []" by simp
      have "parse_csv_from FieldStart [] row
              (quote_field f @ CHR '','' # join '','' (map quote_field fs) @ CHR 0x0A # rest)
              = parse_csv_from FieldStart [] (row @ [f])
                  (join '','' (map quote_field fs) @ CHR 0x0A # rest)"
        using read_field [of "CHR '','' # join '','' (map quote_field fs) @ CHR 0x0A # rest" f row] f
        by (simp add: ends_field_def)
      then show ?thesis
        using Cons.IH(2) [OF ne fs, of "row @ [f]"] ne by (simp add: join_Cons)
    qed
  }
qed

lemma read_record:
  assumes "2 \<le> length fs" "\<forall>t \<in> set fs. cr_safe t"
  shows "parse_csv_from RecordStart [] [] (join '','' (map quote_field fs) @ rest)
           = parse_csv_from FieldStart [] [] (join '','' (map quote_field fs) @ rest)"
proof -
  from assms(1) obtain f g gs where fs: "fs = f # g # gs"
    by (cases fs; cases "tl fs") auto
  with assms(2) have f: "cr_safe f" by simp
  have line: "join '','' (map quote_field fs) @ rest
                = quote_field f @ CHR '','' # (join '','' (map quote_field (g # gs)) @ rest)"
    by (simp add: fs)
  show ?thesis
    unfolding line using quote_field_hd [OF f] by (intro record_start) simp_all
qed

lemma read_rows:
  assumes "rows \<noteq> []" "\<forall>fs \<in> set rows. 2 \<le> length fs \<and> (\<forall>t \<in> set fs. cr_safe t)"
  shows "parse_csv (join [CHR 0x0A] (map (\<lambda>fs. join '','' (map quote_field fs)) rows)) = rows"
  using assms
proof (induction rows)
  case Nil
  then show ?case by simp
next
  case (Cons fs rows)
  then have len: "2 \<le> length fs" and safe: "\<forall>t \<in> set fs. cr_safe t" by simp_all
  then have fs: "fs \<noteq> []" by auto
  show ?case
  proof (cases rows)
    case Nil
    then show ?thesis
      using read_record [OF len safe, of "[]"] read_row(1) [OF fs safe, of "[]"]
      by (simp add: parse_csv_def)
  next
    case (Cons gs rs)
    then have ne: "rows \<noteq> []" by simp
    with Cons.IH Cons.prems
    have IH: "parse_csv_from RecordStart [] []
                (join [CHR 0x0A] (map (\<lambda>fs. join '','' (map quote_field fs)) rows)) = rows"
      by (simp add: parse_csv_def)
    let ?rest = "join [CHR 0x0A] (map (\<lambda>fs. join '','' (map quote_field fs)) rows)"
    have "parse_csv_from RecordStart [] [] (join '','' (map quote_field fs) @ CHR 0x0A # ?rest)
            = fs # rows"
      using read_record [OF len safe, of "CHR 0x0A # ?rest"] read_row(2) [OF fs safe, of "[]" ?rest] IH
      by simp
    then show ?thesis
      using ne by (simp add: parse_csv_def join_Cons)
  qed
qed

lemma csv_value_quote: "csv_value ops x = quote_field (cell_text ops x)"
  by (simp add: csv_value_def quote_field_def cell_text_def Let_def)

lemma csv_line_cells: "csv_line ops row = join '','' (map quote_field (record_cells ops row))"
  by (simp add: csv_line_def record_cells_def csv_value_quote comp_def)

lemma headers_plain: "join '','' headers = join '','' (map quote_field headers)"
  by (simp add: headers_def quote_field_def needs_quoting_def)

lemma headers_safe: "\<forall>t \<in> set headers. cr_safe t"
  by (simp add: headers_def cr_safe_def)

lemma record_cells_six:
  "record_cells ops r =
     [cell_text ops (School r), cell_text ops (Address r), cell_text ops (Group r),
      cell_text ops (lat r), cell_text ops (lon r), cell_text ops (Status r)]"
  by (simp add: record_cells_def headers_def row_get_def)

text \<open>
  C9, as stated, fails for a store that holds a carriage return in a field without a comma,
  double quote or line feed beside it: \<open>downloadCSV\<close> tests a value for \<open>[",\n]\<close> only and
  writes such a field unquoted, so a reader ends the record at the carriage return. A store
  with one record whose school name is "a", a carriage return, "b" reads back as the header
  and two records, and the school name is lost.
\<close>

theorem csv_carriage_return:
  "downloadCSV text_ops [cr_school] =
     Some (''School,Address,Group,lat,lon,Status'' @ [CHR 0x0A] @
           [CHR ''a'', CHR 0x0D, CHR ''b''] @ '',1 Elm St,,44.65,-63.57,none'')
   \<and> parse_csv (''School,Address,Group,lat,lon,Status'' @ [CHR 0x0A] @
           [CHR ''a'', CHR 0x0D, CHR ''b''] @ '',1 Elm St,,44.65,-63.57,none'')
      = [[''School'', ''Address'', ''Group'', ''lat'', ''lon'', ''Status''],
         [''a''],
         [''b'', ''1 Elm St'', [], ''44.65'', ''-63.57'', ''none'']]"
  by (simp add: downloadCSV_def csv_line_def csv_value_def headers_def row_get_def
      needs_quoting_def cr_school_def text_ops_def parse_csv_def)

text \<open>
  C9, amended. For a non-empty record store in which every field that holds a carriage
  return also holds a comma, a double quote or a line feed, \<open>downloadCSV\<close> produces a text
  which, read back, is the header row School, Address, Group, lat, lon, Status followed by
  one row for every record of \<open>DATA\<close>, in order (the function does not look at the filter, so
  hidden records are rows like the visible ones); each row holds the texts of the six
  fields (empty for \<open>null\<close>), unchanged by the trip, whatever commas, double quotes and line
  feeds they contain.
\<close>

theorem csv_round_trip:
  "data \<noteq> [] \<and> (\<forall>r \<in> set data. \<forall>t \<in> set (record_cells ops r). cr_safe t) \<longrightarrow>
     (\<exists>out. downloadCSV ops data = Some out
        \<and> parse_csv out =
            [''School'', ''Address'', ''Group'', ''lat'', ''lon'', ''Status'']
            # map (\<lambda>r. [cell_text ops (School r), cell_text ops (Address r),
                         cell_text ops (Group r), cell_text ops (lat r),
                         cell_text ops (lon r), cell_text ops (Status r)]) data
        \<and> length (parse_csv out) = 1 + length data)"
proof
  assume a: "data \<noteq> [] \<and> (\<forall>r \<in> set data. \<forall>t \<in> set (record_cells ops r). cr_safe t)"
  then have ne: "data \<noteq> []" by simp
  let ?rows = "headers # map (record_cells ops) data"
  have out: "downloadCSV ops data =
               Some (join [CHR 0x0A] (map (\<lambda>fs. join '','' (map quote_field fs)) ?rows))"
  proof -
    have "csv_line ops = (\<lambda>row. join '','' (map quote_field (record_cells ops row)))"
      by (rule ext) (rule csv_line_cells)
    then show ?thesis
      using ne by (simp add: downloadCSV_def headers_plain comp_def del: join.simps)
  qed
  let ?text = "join [CHR 0x0A] (map (\<lambda>fs. join '','' (map quote_field fs)) ?rows)"
  have "\<forall>fs \<in> set ?rows. 2 \<le> length fs \<and> (\<forall>t \<in> set fs. cr_safe t)"
    using a headers_safe by (auto simp: headers_def record_cells_def)
  then have p: "parse_csv ?text = ?rows"
    by (intro read_rows) simp_all
  have e: "?rows = [''School'', ''Address'', ''Group'', ''lat'', ''lon'', ''Status'']
            # map (\<lambda>r. [cell_text ops (School r), cell_text ops (Address r),
                         cell_text ops (Group r), cell_text ops (lat r),
                         cell_text ops (lon r), cell_text ops (Status r)]) data"
    by (simp add: record_cells_six headers_def)
  show "\<exists>out. downloadCSV ops data = Some out
        \<and> parse_csv out =
            [''School'', ''Address'', ''Group'', ''lat'', ''lon'', ''Status'']
            # map (\<lambda>r. [cell_text ops (School r), cell_text ops (Address r),
                         cell_text ops (Group r), cell_text ops (lat r),
                         cell_text ops (lon r), cell_text ops (Status r)]) data
        \<and> length (parse_csv out) = 1 + length data"
  proof (intro exI conjI)
    show "downloadCSV ops data = Some ?text"
      by (rule out)
    show "parse_csv ?text = [''School'', ''Address'', ''Group'', ''lat'', ''lon'', ''Status'']
            # map (\<lambda>r. [cell_text ops (School r), cell_text ops (Address r),
                         cell_text ops (Group r), cell_text ops (lat r),
                         cell_text ops (lon r), cell_text ops (Status r)]) data"
      using p e by (simp only:)
    show "length (parse_csv ?text) = 1 + length data"
      unfolding p by simp
  qed
qed

theorem csv_round_trip_witness:
  "[elm_ps, ash_jh] \<noteq> []
   \<and> cr_safe ''123 Main St, Apt 4''
   \<and> downloadCSV text_ops [elm_ps, ash_jh] =
       Some (''School,Address,Group,lat,lon,Status'' @ [CHR 0x0A] @
             ''Elm PS,\"123 Main St, Apt 4\",HRCE,44.65,-63.57,none'' @ [CHR 0x0A] @
             ''\"Ash \"\"JH\"\"\",,,46,-60.5,recent'')
   \<and> parse_csv (''School,Address,Group,lat,lon,Status'' @ [CHR 0x0A] @
             ''Elm PS,\"123 Main St, Apt 4\",HRCE,44.65,-63.57,none'' @ [CHR 0x0A] @
             ''\"Ash \"\"JH\"\"\",,,46,-60.5,recent'')
       = [[''School'', ''Address'', ''Group'', ''lat'', ''lon'', ''Status''],
          [''Elm PS'', ''123 Main St, Apt 4'', ''HRCE'', ''44.65'', ''-63.57'', ''none''],
          [''Ash \"JH\"'', [], [], ''46'', ''-60.5'', ''recent'']]"
proof -
  have d: "downloadCSV text_ops [elm_ps, ash_jh] =
       Some (''School,Address,Group,lat,lon,Status'' @ [CHR 0x0A] @
             ''Elm PS,\"123 Main St, Apt 4\",HRCE,44.65,-63.57,none'' @ [CHR 0x0A] @
             ''\"Ash \"\"JH\"\"\",,,46,-60.5,recent'')"
    by (simp add: downloadCSV_def csv_line_def csv_value_def headers_def row_get_def
        needs_quoting_def elm_ps_def ash_jh_def text_ops_def)
  have c: "map (\<lambda>r. [cell_text text_ops (School r), cell_text text_ops (Address r),
                      cell_text text_ops (Group r), cell_text text_ops (lat r),
                      cell_text text_ops (lon r), cell_text text_ops (Status r)]) [elm_ps, ash_jh] =
         [[''Elm PS'', ''123 Main St, Apt 4'', ''HRCE'', ''44.65'', ''-63.57'', ''none''],
          [''Ash \"JH\"'', [], [], ''46'', ''-60.5'', ''recent'']]"
    by (simp add: cell_text_def elm_ps_def ash_jh_def text_ops_def)
  have s: "\<forall>r \<in> set [elm_ps, ash_jh]. \<forall>t \<in> set (record_cells text_ops r). cr_safe t"
    by (simp add: record_cells_def cell_text_def headers_def row_get_def elm_ps_def ash_jh_def
        text_ops_def cr_safe_def)
  have s1: "cr_safe ''123 Main St, Apt 4''"
    by (simp add: cr_safe_def)
  from csv_round_trip [of "[elm_ps, ash_jh]" text_ops] s have
    "\<exists>out. downloadCSV text_ops [elm_ps, ash_jh] = Some out
        \<and> parse_csv out =
            [''School'', ''Address'', ''Group'', ''lat'', ''lon'', ''Status'']
            # map (\<lambda>r. [cell_text text_ops (School r), cell_text text_ops (Address r),
                      cell_text text_ops (Group r), cell_text text_ops (lat r),
                      cell_text text_ops (lon r), cell_text text_ops (Status r)]) [elm_ps, ash_jh]"
    by blast
  then show ?thesis
    unfolding d c using s1 by (simp del: parse_csv_from.simps)
qed

text \<open>
  C10. With an empty record store the CSV export returns at once and produces nothing:
  no file, and no header row either.
\<close>

theorem downloadCSV_empty: "downloadCSV ops [] = None"
  by (simp add: downloadCSV_def)

end
